theory Spec2Isabelle
  imports Main
begin

section \<open>The shared worker of the chat widget\<close>

text \<open>
  The connection multiplexer is the shared worker whose source follows the timeline mixin
  in \<^verbatim>\<open>timeline-container-mixin.ts\<close> (from \<^verbatim>\<open>let ws: WebSocket | null\<close> on). Its module
  variables \<^verbatim>\<open>ws\<close>, \<^verbatim>\<open>joinChannel\<close>, \<^verbatim>\<open>messageHistory\<close>, \<^verbatim>\<open>outgoingQueue\<close>, \<^verbatim>\<open>tabPorts\<close>,
  \<^verbatim>\<open>online\<close>, \<^verbatim>\<open>connectedTimestampMs\<close> and \<^verbatim>\<open>reconnectionAttempts\<close> become the fields of
  one record that every handler takes and returns. A handler that throws keeps the
  assignments it made before the throw, so a handler returns the error (if any) together
  with the state it leaves behind.
\<close>

subsection \<open>Messages\<close>

datatype error = Error string

datatype msgStatus = unknown | sent | delivered | read | failed

datatype kiteFile = File (fileName_of: string) (fileType_of: string) (fileSize_of: nat)

datatype body = Text string | FileBody kiteFile

text \<open>
  \<^verbatim>\<open>ContentMsg = PlaintextMsg | FileMsg\<close>: the fields of \<^verbatim>\<open>BaseMsg\<close> and either a text
  (\<^verbatim>\<open>MsgType.PLAINTEXT\<close>) or a file (\<^verbatim>\<open>MsgType.FILE\<close>). A message id is optional
  (\<^verbatim>\<open>messageId?: string\<close>): \<open>None\<close> is \<^verbatim>\<open>undefined\<close>, which is also what a handler reads
  from an object that has no such property, and \<^verbatim>\<open>undefined === undefined\<close> holds.
\<close>

record contentMsg =
  messageId :: "string option"
  timestamp :: int
  status :: msgStatus
  edited :: bool
  body :: body

record joinChannel =
  endpoint :: string
  memberId :: string
  memberName :: "string option"
  eagerlyConnect :: bool

record upload =
  uploadMessageId :: "string option"
  fileName :: string
  fileType :: string
  fileSize :: nat

record binMsg =
  binMessageId :: "string option"
  binTimestamp :: int
  binStatus :: msgStatus
  binEdited :: bool
  binUrl :: string

record msgAck =
  ackMessageId :: "string option"
  destiationMessageId :: "string option"
  ackTimestamp :: int

record errorResponse =
  code :: nat
  reason :: string

text \<open>
  \<^verbatim>\<open>KiteMsg\<close>, one constructor per \<^verbatim>\<open>MsgType\<close> the worker reads or writes. The module
  \<^verbatim>\<open>kite-types\<close> that declares the union is not among the sources.

  Modelled from the spec: \<open>Zipped\<close> is the batch/zip notification of the backend
  (\<^verbatim>\<open>kite-types\<close> is missing), ``correlating a new canonical message with a set of
  previously-sent local ids it supersedes'': the id of the composite message, the ids it
  replaces and the archive file, the three arguments of \<^verbatim>\<open>onZippedMessage\<close>.
\<close>

datatype kiteMsg =
    JOIN joinChannel
  | CONTENT contentMsg
  | UPLOAD upload
  | BIN binMsg
  | ACK msgAck
  | ERROR errorResponse
  | CONNECTED "contentMsg list"
  | DISCONNECTED
  | ONLINE
  | OFFLINE int
  | Zipped string "string list" kiteFile

subsection \<open>The WebSocket, as the worker sees it\<close>

datatype readyState = CONNECTING | OPEN | CLOSING | CLOSED

text \<open>
  A socket object: its url, its ready state (changed by the platform between handlers),
  the frames handed to \<^verbatim>\<open>ws.send\<close> and the arguments of the calls of \<^verbatim>\<open>ws.close\<close>.
\<close>

record 'f socket =
  url :: string
  readyState :: readyState
  frames :: "'f list"
  closeCalls :: "(nat \<times> string) option list"

definition newWebSocket :: "string \<Rightarrow> 'f socket" where
  "newWebSocket u = \<lparr>url = u, readyState = CONNECTING, frames = [], closeCalls = []\<rparr>"

text \<open>
  \<^verbatim>\<open>WebSocket.send\<close>: throws while connecting, queues the frame when open and drops it
  silently when closing or closed.
\<close>

definition wsSend :: "'f \<Rightarrow> 'f socket \<Rightarrow> error + 'f socket" where
  "wsSend encoded sock =
     (case readyState sock of
        CONNECTING \<Rightarrow> Inl (Error ''InvalidStateError'')
      | OPEN \<Rightarrow> Inr (sock\<lparr>frames := frames sock @ [encoded]\<rparr>)
      | CLOSING \<Rightarrow> Inr sock
      | CLOSED \<Rightarrow> Inr sock)"

text \<open>
  \<^verbatim>\<open>WebSocket.close(code, reason)\<close>: a code other than 1000 or 3000 to 4999 throws an
  \<^verbatim>\<open>InvalidAccessError\<close> and a reason longer than 123 bytes a \<^verbatim>\<open>SyntaxError\<close>, both
  before anything is done to the socket; otherwise the closing handshake starts unless
  the socket is already closing or closed. \<open>closeCalls\<close> logs the calls that were
  accepted.
\<close>

definition wsClose :: "(nat \<times> string) option \<Rightarrow> 'f socket \<Rightarrow> error + 'f socket" where
  "wsClose args sock =
     (let closing = sock\<lparr>readyState := (if readyState sock = CLOSING \<or> readyState sock = CLOSED
                                            then readyState sock else CLOSING),
                          closeCalls := closeCalls sock @ [args]\<rparr>
      in case args of
           None \<Rightarrow> Inr closing
         | Some (closeCode, closeReason) \<Rightarrow>
             if \<not> (closeCode = 1000 \<or> (3000 \<le> closeCode \<and> closeCode \<le> 4999))
             then Inl (Error ''InvalidAccessError'')
             else if length closeReason > 123 then Inl (Error ''SyntaxError'')
             else Inr closing)"

subsection \<open>The state of the worker\<close>

text \<open>
  \<open>tabPorts\<close> is the \<^verbatim>\<open>Set\<close> of ports in insertion order; \<open>posted\<close> logs every
  \<^verbatim>\<open>port.postMessage\<close> (the port and the message, a structured clone) and \<open>timers\<close> every
  delay given to \<^verbatim>\<open>setTimeout(triggerWsConnection, _)\<close>. The handlers never read the
  socket an event comes from, only the one held in \<^verbatim>\<open>ws\<close>; a socket that \<^verbatim>\<open>ws\<close> lets
  go (overwritten or set to \<^verbatim>\<open>null\<close>) moves to \<open>released\<close> as it was then.

  The only assignment to a stored message is the one of \<^verbatim>\<open>onMessageAck\<close>, to an object
  of the history; the queue shares that object through its index.
\<close>

text \<open>
  An element of \<^verbatim>\<open>outgoingQueue\<close>. A text message of a tab is pushed, one object, to both
  \<^verbatim>\<open>messageHistory\<close> and \<^verbatim>\<open>outgoingQueue\<close>; the history is never shortened or reordered, so
  such an object is known by its index in the history: \<open>Shared i\<close> is the object
  \<^verbatim>\<open>messageHistory[i]\<close>, and an assignment to that object shows in the queue as well.
  \<open>Own m\<close> is an object that only the queue holds (an upload intent). \<open>queued\<close> reads
  the message an element stands for; an index beyond the history reads as
  \<^verbatim>\<open>undefined\<close>.
\<close>

datatype envelope = Shared nat | Own kiteMsg

fun queued :: "contentMsg list \<Rightarrow> envelope \<Rightarrow> kiteMsg option" where
  "queued history (Shared i) = (if i < length history then Some (CONTENT (history ! i)) else None)"
| "queued history (Own m) = Some m"

record 'f worker =
  ws :: "'f socket option"
  joinChannel :: "joinChannel option"
  messageHistory :: "contentMsg list"
  outgoingQueue :: "envelope list"
  tabPorts :: "nat list"
  posted :: "(nat \<times> kiteMsg) list"
  online :: bool
  connectedTimestampMs :: int
  reconnectionAttempts :: nat
  timers :: "int list"
  released :: "'f socket list"

definition setWs :: "'f socket option \<Rightarrow> 'f worker \<Rightarrow> 'f worker" where
  "setWs w s =
     s\<lparr>ws := w,
       released := released s @ (case ws s of None \<Rightarrow> [] | Some old \<Rightarrow> [old])\<rparr>"

definition WS_CLOSE_REASON_GONE_AWAY :: nat where
  "WS_CLOSE_REASON_GONE_AWAY = 1001"

definition MIN_RECONNECTION_INTERVAL_MS :: int where
  "MIN_RECONNECTION_INTERVAL_MS = 1000 * 60"

definition broadcast :: "kiteMsg \<Rightarrow> nat option \<Rightarrow> 'f worker \<Rightarrow> 'f worker" where
  "broadcast msg exclude s =
     s\<lparr>posted := posted s @ map (\<lambda>tabPort. (tabPort, msg))
                              (filter (\<lambda>tabPort. Some tabPort \<noteq> exclude) (tabPorts s))\<rparr>"

subsection \<open>Sending and flushing\<close>

text \<open>
  The wire codec (\<^verbatim>\<open>serialization.ts\<close>) is not among the sources, so it is a parameter:
  \<open>encodeKiteMsg\<close> and \<open>decodeKiteMsg\<close>, either of which may throw. The argument of
  \<open>encodeKiteMsg\<close> is optional because \<^verbatim>\<open>flushQueue\<close> reads \<^verbatim>\<open>outgoingQueue[0]\<close>, which is
  \<^verbatim>\<open>undefined\<close> (\<open>None\<close>) on an empty array. \<^verbatim>\<open>onWsMessage\<close> decodes an incoming frame to
  find its type but hands the handlers the frame itself (\<^verbatim>\<open>payload as MsgAck\<close>, a cast
  that does nothing at run time): \<open>asPlaintext\<close>, \<open>asBin\<close>, \<open>asAck\<close> and \<open>asError\<close> are the
  fields a handler finds when it reads the frame as such a message.
\<close>

record 'f codec =
  encodeKiteMsg :: "kiteMsg option \<Rightarrow> error + 'f"
  decodeKiteMsg :: "'f \<Rightarrow> error + kiteMsg"
  asPlaintext :: "'f \<Rightarrow> contentMsg"
  asBin :: "'f \<Rightarrow> binMsg"
  asAck :: "'f \<Rightarrow> msgAck"
  asError :: "'f \<Rightarrow> errorResponse"

text \<open>\<^verbatim>\<open>send\<close> asserts a socket and its open state, then encodes and sends.\<close>

definition send ::
  "'f codec \<Rightarrow> kiteMsg option \<Rightarrow> 'f socket option \<Rightarrow> error + 'f socket option" where
  "send cdc payload w =
     (case w of
        None \<Rightarrow> Inl (Error ''No Websocket connection'')
      | Some sock \<Rightarrow>
          if readyState sock \<noteq> OPEN then Inl (Error ''Websocket is not ready'')
          else (case encodeKiteMsg cdc payload of
                  Inl e \<Rightarrow> Inl e
                | Inr encoded \<Rightarrow>
                    (case wsSend encoded sock of
                       Inl e \<Rightarrow> Inl e
                     | Inr sock' \<Rightarrow> Inr (Some sock'))))"

text \<open>
  The loop of \<^verbatim>\<open>flushQueue\<close>: \<^verbatim>\<open>while (queueSize-- > 0)\<close> reads the head, sends it and
  shifts the array only when the send returned; a throw leaves the loop with the head
  still queued. The send function is a parameter over any connection state \<open>'w\<close>.
\<close>

fun flushLoop ::
  "('m option \<Rightarrow> 'w \<Rightarrow> error + 'w) \<Rightarrow> nat \<Rightarrow> 'm list \<Rightarrow> 'w \<Rightarrow> error option \<times> 'm list \<times> 'w" where
  "flushLoop sendFn 0 q w = (None, q, w)"
| "flushLoop sendFn (Suc queueSize) q w =
     (let payload = (case q of [] \<Rightarrow> None | x # _ \<Rightarrow> Some x) in
      case sendFn payload w of
        Inl e \<Rightarrow> (Some e, q, w)
      | Inr w' \<Rightarrow> flushLoop sendFn queueSize (tl q) w')"

definition flushQueueWith ::
  "('m option \<Rightarrow> 'w \<Rightarrow> error + 'w) \<Rightarrow> 'm list \<Rightarrow> 'w \<Rightarrow> error option \<times> 'm list \<times> 'w" where
  "flushQueueWith sendFn q w =
     (let queueSize = length q in
      if queueSize \<le> 0 then (None, q, w) else flushLoop sendFn queueSize q w)"

text \<open>
  The worker's \<^verbatim>\<open>flushQueue\<close>: the loop over \<^verbatim>\<open>outgoingQueue\<close> with the worker's
  \<^verbatim>\<open>send\<close>, which works on the socket held in \<^verbatim>\<open>ws\<close> and is given the object the
  head of the queue stands for.
\<close>

definition flushQueue :: "'f codec \<Rightarrow> 'f worker \<Rightarrow> error option \<times> 'f worker" where
  "flushQueue cdc s =
     (case flushQueueWith
             (\<lambda>payload. send cdc (case payload of
                                      None \<Rightarrow> None
                                    | Some x \<Rightarrow> queued (messageHistory s) x))
             (outgoingQueue s) (ws s) of
        (e, q, w) \<Rightarrow> (e, s\<lparr>ws := w, outgoingQueue := q\<rparr>))"

text \<open>
  The claim's words, for comparison: sending a list of envelopes one after the other,
  each from the connection state the previous send left.
\<close>

fun sendAll :: "('m option \<Rightarrow> 'w \<Rightarrow> error + 'w) \<Rightarrow> 'm list \<Rightarrow> 'w \<Rightarrow> error + 'w" where
  "sendAll sendFn [] w = Inr w"
| "sendAll sendFn (x # xs) w = (case sendFn (Some x) w of Inl e \<Rightarrow> Inl e | Inr w' \<Rightarrow> sendAll sendFn xs w')"

subsection \<open>Connecting\<close>

text \<open>
  \<^verbatim>\<open>triggerWsConnection\<close> counts the attempt (inside the log call), asserts the join
  configuration and replaces \<^verbatim>\<open>ws\<close> by a new socket to the stored endpoint. The endpoint
  was checked by the tab before it joined (\<^verbatim>\<open>KiteChat.connect\<close> asserts the \<^verbatim>\<open>ws\<close> scheme
  and the channel parameter), so the constructor is taken to succeed.
\<close>

definition triggerWsConnection :: "'f worker \<Rightarrow> error option \<times> 'f worker" where
  "triggerWsConnection s =
     (let s1 = s\<lparr>reconnectionAttempts := reconnectionAttempts s + 1\<rparr> in
      case joinChannel s1 of
        None \<Rightarrow> (Some (Error ''Missing websocket connection configuration''), s1)
      | Some jc \<Rightarrow> (None, setWs (Some (newWebSocket (endpoint jc))) s1))"

subsection \<open>Events from the tabs\<close>

definition onTabConnected :: "nat \<Rightarrow> 'f worker \<Rightarrow> 'f worker" where
  "onTabConnected port s =
     (let s1 = s\<lparr>tabPorts := (if port \<in> set (tabPorts s) then tabPorts s
                                else tabPorts s @ [port])\<rparr>
      in s1\<lparr>posted := posted s1 @ [(port, CONNECTED (messageHistory s1))]\<rparr>)"

text \<open>
  \<^verbatim>\<open>onJoinChannel\<close>: the first join is stored as it is; every join then has its
  \<^verbatim>\<open>eagerlyConnect\<close> or-ed into the stored object, and only after that assignment the
  endpoints are compared.
\<close>

definition onJoinChannel :: "joinChannel \<Rightarrow> 'f worker \<Rightarrow> error option \<times> 'f worker" where
  "onJoinChannel payload s =
     (let jc = (case joinChannel s of None \<Rightarrow> payload | Some stored \<Rightarrow> stored);
          jc' = jc\<lparr>eagerlyConnect := eagerlyConnect jc \<or> eagerlyConnect payload\<rparr>;
          s1 = s\<lparr>joinChannel := Some jc'\<rparr>
      in if endpoint jc' \<noteq> endpoint payload
         then (Some (Error ''Cannot use different chat endpoints for the same domain''), s1)
         else if ws s1 = None \<and> eagerlyConnect jc' then triggerWsConnection s1
         else (None, s1))"

definition onPlaintextMessage ::
  "'f codec \<Rightarrow> contentMsg \<Rightarrow> nat \<Rightarrow> 'f worker \<Rightarrow> error option \<times> 'f worker" where
  "onPlaintextMessage cdc payload tabPort s =
     (let s1 = s\<lparr>messageHistory := messageHistory s @ [payload]\<rparr>;
          s2 = s1\<lparr>outgoingQueue := outgoingQueue s1 @ [Shared (length (messageHistory s))]\<rparr>;
          s3 = broadcast (CONTENT payload) (Some tabPort) s2
      in case ws s3 of
           Some sock \<Rightarrow> if readyState sock = OPEN then flushQueue cdc s3 else (None, s3)
         | None \<Rightarrow> if online s3 then triggerWsConnection s3 else (None, s3))"

text \<open>
  \<^verbatim>\<open>onFileMessage\<close> queues an upload intent built from \<^verbatim>\<open>payload.file\<close>; on a payload
  without a file that read throws a \<^verbatim>\<open>TypeError\<close>, after the push and the broadcast.
\<close>

definition onFileMessage ::
  "'f codec \<Rightarrow> contentMsg \<Rightarrow> nat \<Rightarrow> 'f worker \<Rightarrow> error option \<times> 'f worker" where
  "onFileMessage cdc payload tabPort s =
     (let s1 = s\<lparr>messageHistory := messageHistory s @ [payload]\<rparr>;
          s2 = broadcast (CONTENT payload) (Some tabPort) s1
      in case body payload of
           Text _ \<Rightarrow> (Some (Error ''TypeError''), s2)
         | FileBody f \<Rightarrow>
             (let upload = \<lparr>uploadMessageId = messageId payload, fileName = fileName_of f,
                             fileType = fileType_of f, fileSize = fileSize_of f\<rparr>;
                  s3 = s2\<lparr>outgoingQueue := outgoingQueue s2 @ [Own (UPLOAD upload)]\<rparr>
              in case ws s3 of
                   Some sock \<Rightarrow> if readyState sock = OPEN then flushQueue cdc s3 else (None, s3)
                 | None \<Rightarrow> if online s3 then triggerWsConnection s3 else (None, s3)))"

text \<open>
  \<^verbatim>\<open>onTabDisconnected\<close> deletes the port and, when none is left, calls
  \<^verbatim>\<open>ws?.close(WS_CLOSE_REASON_GONE_AWAY, ..)\<close>; what \<^verbatim>\<open>close\<close> throws leaves the handler.
\<close>

definition onTabDisconnected :: "nat \<Rightarrow> 'f worker \<Rightarrow> error option \<times> 'f worker" where
  "onTabDisconnected port s =
     (let s1 = s\<lparr>tabPorts := removeAll port (tabPorts s)\<rparr>;
          tabsCount = length (tabPorts s1)
      in if tabsCount = 0
         then (case ws s1 of
                 None \<Rightarrow> (None, s1)
               | Some sock \<Rightarrow>
                   (case wsClose (Some (WS_CLOSE_REASON_GONE_AWAY, ''all active tabs closed''))
                           sock of
                      Inl e \<Rightarrow> (Some e, s1)
                    | Inr sock' \<Rightarrow> (None, s1\<lparr>ws := Some sock'\<rparr>)))
         else (None, s1))"

definition onTabMessage ::
  "'f codec \<Rightarrow> nat \<Rightarrow> kiteMsg option \<Rightarrow> 'f worker \<Rightarrow> error option \<times> 'f worker" where
  "onTabMessage cdc tabPort dat s =
     (case dat of
        None \<Rightarrow> (Some (Error ''Missing payload''), s)
      | Some payload \<Rightarrow>
          (case payload of
             JOIN j \<Rightarrow> onJoinChannel j s
           | CONTENT m \<Rightarrow>
               (case body m of
                  Text _ \<Rightarrow> onPlaintextMessage cdc m tabPort s
                | FileBody _ \<Rightarrow> onFileMessage cdc m tabPort s)
           | DISCONNECTED \<Rightarrow> onTabDisconnected tabPort s
           | _ \<Rightarrow> (None, s)))"

subsection \<open>Online and offline\<close>

definition onOnline :: "'f worker \<Rightarrow> error option \<times> 'f worker" where
  "onOnline s =
     (let s1 = s\<lparr>online := True\<rparr> in
      if length (tabPorts s1) = 0 then (None, s1)
      else if length (outgoingQueue s1) > 0 then triggerWsConnection s1
      else if (case joinChannel s1 of None \<Rightarrow> False | Some jc \<Rightarrow> eagerlyConnect jc)
      then triggerWsConnection s1
      else (None, s1))"

definition onOffline :: "'f worker \<Rightarrow> error option \<times> 'f worker" where
  "onOffline s =
     (let s1 = s\<lparr>online := False\<rparr> in
      case ws s1 of
        None \<Rightarrow> (None, setWs None s1)
      | Some sock \<Rightarrow>
          if readyState sock = OPEN
          then (case wsClose None sock of
                  Inl e \<Rightarrow> (Some e, s1)
                | Inr sock' \<Rightarrow> (None, setWs None (s1\<lparr>ws := Some sock'\<rparr>)))
          else (None, setWs None s1))"

subsection \<open>Events from the socket\<close>

text \<open>
  \<^verbatim>\<open>onWsOpen\<close> and \<^verbatim>\<open>onWsClose\<close> read the clock; \<open>now\<close> is \<^verbatim>\<open>Date.now()\<close>.
\<close>

definition onWsOpen :: "'f codec \<Rightarrow> int \<Rightarrow> 'f worker \<Rightarrow> error option \<times> 'f worker" where
  "onWsOpen cdc now s =
     (let s1 = s\<lparr>connectedTimestampMs := now\<rparr> in
      case joinChannel s1 of
        None \<Rightarrow> (Some (Error ''no pending joinChannel message''), s1)
      | Some jc \<Rightarrow>
          (case send cdc (Some (JOIN jc)) (ws s1) of
             Inl e \<Rightarrow> (Some e, s1)
           | Inr w \<Rightarrow>
               (case flushQueue cdc (s1\<lparr>ws := w\<rparr>) of
                  (Some e, s2) \<Rightarrow> (Some e, s2)
                | (None, s2) \<Rightarrow> (None, broadcast ONLINE None s2))))"

definition onWsClose :: "int \<Rightarrow> 'f worker \<Rightarrow> error option \<times> 'f worker" where
  "onWsClose now s =
     (let sessionDurationMs =
            (if connectedTimestampMs s \<noteq> 0 then now - connectedTimestampMs s else 0);
          s1 = broadcast (OFFLINE sessionDurationMs) None s
      in if \<not> online s1 then (None, setWs None s1)
         else if length (tabPorts s1) = 0 then (None, setWs None s1)
         else (let timeToReconnect = MIN_RECONNECTION_INTERVAL_MS - sessionDurationMs in
               if timeToReconnect > 0
               then (None, s1\<lparr>timers := timers s1 @ [timeToReconnect]\<rparr>)
               else triggerWsConnection s1))"

definition onWsError :: "'f worker \<Rightarrow> 'f worker" where
  "onWsError s = s"

definition onWsPlaintextMessage :: "contentMsg \<Rightarrow> 'f worker \<Rightarrow> 'f worker" where
  "onWsPlaintextMessage payload s =
     broadcast (CONTENT payload) None (s\<lparr>messageHistory := messageHistory s @ [payload]\<rparr>)"

text \<open>\<^verbatim>\<open>downloadUrl\<close> is not implemented: it throws for every url.\<close>

definition downloadUrl :: "string \<Rightarrow> error + kiteFile" where
  "downloadUrl u = Inl (Error (''Not implemented downloading of '' @ u))"

text \<open>
  \<^verbatim>\<open>onWsFileMessage\<close> is asynchronous and has no \<^verbatim>\<open>try\<close>: when the download fails, the
  promise it returned is rejected, and the error of the result is that rejection.
\<close>

definition onWsFileMessage :: "binMsg \<Rightarrow> 'f worker \<Rightarrow> error option \<times> 'f worker" where
  "onWsFileMessage payload s =
     (case downloadUrl (binUrl payload) of
        Inl e \<Rightarrow> (Some e, s)
      | Inr f \<Rightarrow>
          (let incoming = \<lparr>messageId = binMessageId payload, timestamp = binTimestamp payload,
                           status = binStatus payload, edited = binEdited payload,
                           body = FileBody f\<rparr>
           in (None, broadcast (CONTENT incoming) None
                       (s\<lparr>messageHistory := messageHistory s @ [incoming]\<rparr>))))"

text \<open>
  \<^verbatim>\<open>messageHistory.findLast\<close> returns the last matching object, which the handler then
  assigns to; with the history a list of values, the position of that object.
\<close>

fun findLast :: "('a \<Rightarrow> bool) \<Rightarrow> 'a list \<Rightarrow> nat option" where
  "findLast P [] = None"
| "findLast P (x # xs) =
     (case findLast P xs of
        Some i \<Rightarrow> Some (Suc i)
      | None \<Rightarrow> if P x then Some 0 else None)"

definition onMessageAck :: "msgAck \<Rightarrow> 'f worker \<Rightarrow> 'f worker" where
  "onMessageAck payload s =
     (let s1 = (case findLast (\<lambda>msg. messageId msg = ackMessageId payload) (messageHistory s) of
                  Some i \<Rightarrow>
                    s\<lparr>messageHistory := (messageHistory s)
                         [i := (messageHistory s ! i)
                                 \<lparr>messageId := destiationMessageId payload,
                                  status := delivered\<rparr>]\<rparr>
                | None \<Rightarrow> s)
      in broadcast (ACK payload) None s1)"

definition onErrorResponse :: "errorResponse \<Rightarrow> 'f worker \<Rightarrow> 'f worker" where
  "onErrorResponse payload s = s"

text \<open>
  \<^verbatim>\<open>onWsMessage\<close> switches on the type of the decoded message; only \<^verbatim>\<open>PLAINTEXT\<close>,
  \<^verbatim>\<open>BIN\<close>, \<^verbatim>\<open>ACK\<close> and \<^verbatim>\<open>ERROR\<close> have a case. The promise of \<^verbatim>\<open>onWsFileMessage\<close> is
  not awaited: its rejection is reported here as the error, though the handler itself
  returns.
\<close>

definition onWsMessage :: "'f codec \<Rightarrow> 'f \<Rightarrow> 'f worker \<Rightarrow> error option \<times> 'f worker" where
  "onWsMessage cdc payload s =
     (case decodeKiteMsg cdc payload of
        Inl e \<Rightarrow> (Some e, s)
      | Inr kiteMsg \<Rightarrow>
          (case kiteMsg of
             CONTENT m \<Rightarrow>
               (case body m of
                  Text _ \<Rightarrow> (None, onWsPlaintextMessage (asPlaintext cdc payload) s)
                | FileBody _ \<Rightarrow> (None, s))
           | BIN _ \<Rightarrow> onWsFileMessage (asBin cdc payload) s
           | ACK _ \<Rightarrow> (None, onMessageAck (asAck cdc payload) s)
           | ERROR _ \<Rightarrow> (None, onErrorResponse (asError cdc payload) s)
           | _ \<Rightarrow> (None, s)))"

subsection \<open>The event loop\<close>

text \<open>
  The worker is driven by events, one handler at a time, each run to its end. An error
  thrown by a handler ends that handler only: the next event finds the state the handler
  left. \<open>WsState\<close> is the platform changing the ready state of the socket held in
  \<^verbatim>\<open>ws\<close>; \<open>ReconnectTimer\<close> is a timer of \<^verbatim>\<open>onWsClose\<close> coming due.
\<close>

datatype 'f event =
    TabConnected nat
  | TabMessage nat "kiteMsg option"
  | GoOnline
  | GoOffline
  | WsOpen int
  | WsClose int
  | WsError
  | WsMessage 'f
  | ReconnectTimer
  | WsState readyState

definition step :: "'f codec \<Rightarrow> 'f event \<Rightarrow> 'f worker \<Rightarrow> 'f worker" where
  "step cdc ev s =
     (case ev of
        TabConnected port \<Rightarrow> onTabConnected port s
      | TabMessage tabPort dat \<Rightarrow> snd (onTabMessage cdc tabPort dat s)
      | GoOnline \<Rightarrow> snd (onOnline s)
      | GoOffline \<Rightarrow> snd (onOffline s)
      | WsOpen now \<Rightarrow> snd (onWsOpen cdc now s)
      | WsClose now \<Rightarrow> snd (onWsClose now s)
      | WsError \<Rightarrow> onWsError s
      | WsMessage payload \<Rightarrow> snd (onWsMessage cdc payload s)
      | ReconnectTimer \<Rightarrow> snd (triggerWsConnection s)
      | WsState r \<Rightarrow> s\<lparr>ws := map_option (\<lambda>sock. sock\<lparr>readyState := r\<rparr>) (ws s)\<rparr>)"

fun run :: "'f codec \<Rightarrow> 'f event list \<Rightarrow> 'f worker \<Rightarrow> 'f worker" where
  "run cdc [] s = s"
| "run cdc (ev # evs) s = run cdc evs (step cdc ev s)"

text \<open>The worker as the module leaves it when loaded; \<open>onLine\<close> is \<^verbatim>\<open>navigator.onLine\<close>.\<close>

definition initial :: "bool \<Rightarrow> 'f worker" where
  "initial onLine =
     \<lparr>ws = None, joinChannel = None, messageHistory = [], outgoingQueue = [], tabPorts = [],
      posted = [], online = onLine, connectedTimestampMs = 0, reconnectionAttempts = 0,
      timers = [], released = []\<rparr>"

text \<open>The Join requests among the events, in their order.\<close>

fun joinsOf :: "'f event list \<Rightarrow> joinChannel list" where
  "joinsOf [] = []"
| "joinsOf (TabMessage tabPort (Some (JOIN j)) # evs) = j # joinsOf evs"
| "joinsOf (ev # evs) = joinsOf evs"

text \<open>
  Every shared element of the queue points into the history. The handlers keep it so
  (\<open>run_refsValid\<close> below), so \<open>queued\<close> never reads beyond the history.
\<close>

definition refsValid :: "'f worker \<Rightarrow> bool" where
  "refsValid s =
     list_all (\<lambda>x. case x of Shared i \<Rightarrow> i < length (messageHistory s) | Own m \<Rightarrow> True)
       (outgoingQueue s)"

text \<open>
  What one Join does to the stored configuration, in the claim's words: the first Join
  is taken whole, a later one only adds its \<^verbatim>\<open>eagerlyConnect\<close>.
\<close>

definition accumulate :: "joinChannel option \<Rightarrow> joinChannel \<Rightarrow> joinChannel option" where
  "accumulate stored payload =
     Some ((case stored of None \<Rightarrow> payload | Some c \<Rightarrow> c)
             \<lparr>eagerlyConnect := (case stored of None \<Rightarrow> eagerlyConnect payload
                                  | Some c \<Rightarrow> eagerlyConnect c \<or> eagerlyConnect payload)\<rparr>)"

subsection \<open>Values for the examples\<close>

text \<open>
  A codec for the examples: a frame is the message object itself, so reading a frame as
  a message gives the message's own fields.
\<close>

definition loopback :: "kiteMsg codec" where
  "loopback =
     \<lparr>encodeKiteMsg = (\<lambda>p. case p of None \<Rightarrow> Inl (Error ''undefined'') | Some m \<Rightarrow> Inr m),
      decodeKiteMsg = Inr,
      asPlaintext = (\<lambda>f. case f of CONTENT m \<Rightarrow> m
                       | _ \<Rightarrow> \<lparr>messageId = None, timestamp = 0, status = unknown, edited = False,
                              body = Text []\<rparr>),
      asBin = (\<lambda>f. case f of BIN b \<Rightarrow> b
                 | _ \<Rightarrow> \<lparr>binMessageId = None, binTimestamp = 0, binStatus = unknown,
                        binEdited = False, binUrl = ''undefined''\<rparr>),
      asAck = (\<lambda>f. case f of ACK a \<Rightarrow> a
                 | _ \<Rightarrow> \<lparr>ackMessageId = None, destiationMessageId = None, ackTimestamp = 0\<rparr>),
      asError = (\<lambda>f. case f of ERROR e \<Rightarrow> e | _ \<Rightarrow> \<lparr>code = 0, reason = []\<rparr>)\<rparr>"

text \<open>
  A codec as on a real socket: a frame is the serialised message, text or bytes. It
  decodes to the message but has none of the message's properties, so every field a
  handler reads from the frame is \<^verbatim>\<open>undefined\<close> (the url, which \<^verbatim>\<open>downloadUrl\<close> only
  appends to its error text, reads as that word). The fields that no handler reads are
  left at arbitrary values.
\<close>

datatype wire = Wire kiteMsg

definition onTheWire :: "wire codec" where
  "onTheWire =
     \<lparr>encodeKiteMsg = (\<lambda>p. case p of None \<Rightarrow> Inl (Error ''undefined'') | Some m \<Rightarrow> Inr (Wire m)),
      decodeKiteMsg = (\<lambda>f. case f of Wire m \<Rightarrow> Inr m),
      asPlaintext = (\<lambda>f. \<lparr>messageId = None, timestamp = 0, status = unknown, edited = False,
                             body = Text []\<rparr>),
      asBin = (\<lambda>f. \<lparr>binMessageId = None, binTimestamp = 0, binStatus = unknown,
                       binEdited = False, binUrl = ''undefined''\<rparr>),
      asAck = (\<lambda>f. \<lparr>ackMessageId = None, destiationMessageId = None, ackTimestamp = 0\<rparr>),
      asError = (\<lambda>f. \<lparr>code = 0, reason = []\<rparr>)\<rparr>"

definition textMsg :: "string \<Rightarrow> string \<Rightarrow> contentMsg" where
  "textMsg i t =
     \<lparr>messageId = Some i, timestamp = 0, status = unknown, edited = False, body = Text t\<rparr>"

definition fileMsg :: "string \<Rightarrow> string \<Rightarrow> contentMsg" where
  "fileMsg i n =
     \<lparr>messageId = Some i, timestamp = 0, status = unknown, edited = False,
      body = FileBody (File n ''image/png'' 10)\<rparr>"

definition joinOf :: "string \<Rightarrow> bool \<Rightarrow> joinChannel" where
  "joinOf e eager = \<lparr>endpoint = e, memberId = ''u1'', memberName = None, eagerlyConnect = eager\<rparr>"

definition openSocket :: "string \<Rightarrow> 'f socket" where
  "openSocket u = \<lparr>url = u, readyState = OPEN, frames = [], closeCalls = []\<rparr>"

text \<open>
  States for the examples: one message in the history and one tab; two file messages
  and one tab; an open socket with two messages queued and two tabs.
\<close>

definition ackExample :: "'f worker" where
  "ackExample = (initial True)\<lparr>messageHistory := [textMsg ''m1'' ''hi''], tabPorts := [7]\<rparr>"

definition zipExample :: "kiteMsg worker" where
  "zipExample =
     (initial True)\<lparr>messageHistory := [fileMsg ''f1'' ''a.png'', fileMsg ''f2'' ''b.png''],
                    tabPorts := [7]\<rparr>"

definition openExample :: "kiteMsg worker" where
  "openExample =
     (initial True)
       \<lparr>ws := Some (openSocket ''wss://a/ws?c=x''),
        joinChannel := Some (joinOf ''wss://a/ws?c=x'' False),
        messageHistory := [textMsg ''m1'' ''hi'', textMsg ''m2'' ''there''],
        outgoingQueue := [Shared 0, Shared 1],
        tabPorts := [7, 8]\<rparr>"

text \<open>
  A tab joins, sends \<open>m1\<close> while no socket exists (which starts a connection) and
  detaches before the socket opens; then the connection attempt fails and the close
  event of the socket arrives.
\<close>

definition detachedExample :: "kiteMsg worker" where
  "detachedExample =
     run loopback
       [TabConnected 1,
        TabMessage 1 (Some (JOIN (joinOf ''wss://a/ws?c=x'' False))),
        TabMessage 1 (Some (CONTENT (textMsg ''m1'' ''hi''))),
        TabMessage 1 (Some DISCONNECTED),
        WsState CLOSED,
        WsClose 5000]
       (initial True)"

text \<open>
  A tab joins eagerly, the socket opens at time 1000 and the platform then closes it.
\<close>

definition closedExample :: "kiteMsg worker" where
  "closedExample =
     run loopback
       [TabConnected 1,
        TabMessage 1 (Some (JOIN (joinOf ''wss://a/ws?c=x'' True))),
        WsState OPEN,
        WsOpen 1000,
        WsState CLOSED]
       (initial True)"

section \<open>Theorems\<close>

subsection \<open>The outgoing queue\<close>

lemma flushLoop_all:
  "sendAll sendFn q w = Inr w' \<Longrightarrow> flushLoop sendFn (length q) q w = (None, [], w')"
  by (induction q arbitrary: w) (auto split: sum.splits)

lemma flushLoop_fail:
  "k < length q \<Longrightarrow> sendAll sendFn (take k q) w = Inr w' \<Longrightarrow> sendFn (Some (q ! k)) w' = Inl e
     \<Longrightarrow> flushLoop sendFn (length q) q w = (Some e, drop k q, w')"
proof (induction q arbitrary: w k)
  case Nil
  then show ?case by simp
next
  case (Cons x xs)
  show ?case
  proof (cases k)
    case 0
    with Cons.prems show ?thesis by simp
  next
    case (Suc j)
    with Cons.prems obtain w1 where w1: "sendFn (Some x) w = Inr w1"
      and rest: "sendAll sendFn (take j xs) w1 = Inr w'"
      by (auto split: sum.splits)
    from Cons.prems Suc have j: "j < length xs" and f: "sendFn (Some (xs ! j)) w' = Inl e"
      by simp_all
    have "flushLoop sendFn (length xs) xs w1 = (Some e, drop j xs, w')"
      by (rule Cons.IH [OF j rest f])
    with w1 Suc show ?thesis by simp
  qed
qed

lemma sendAll_cases:
  "(\<exists>w'. sendAll sendFn q w = Inr w') \<or>
   (\<exists>k w' e. k < length q \<and> sendAll sendFn (take k q) w = Inr w' \<and> sendFn (Some (q ! k)) w' = Inl e)"
proof (induction q arbitrary: w)
  case Nil
  then show ?case by simp
next
  case (Cons x xs)
  show ?case
  proof (cases "sendFn (Some x) w")
    case (Inl e)
    then have "0 < length (x # xs) \<and> sendAll sendFn (take 0 (x # xs)) w = Inr w
                 \<and> sendFn (Some ((x # xs) ! 0)) w = Inl e"
      by simp
    then show ?thesis by blast
  next
    case (Inr w1)
    from Cons.IH [of w1] show ?thesis
    proof
      assume "\<exists>w'. sendAll sendFn xs w1 = Inr w'"
      with Inr show ?thesis by simp
    next
      assume "\<exists>k w' e. k < length xs \<and> sendAll sendFn (take k xs) w1 = Inr w'
                \<and> sendFn (Some (xs ! k)) w' = Inl e"
      then obtain k w' e where "k < length xs" "sendAll sendFn (take k xs) w1 = Inr w'"
        "sendFn (Some (xs ! k)) w' = Inl e"
        by blast
      with Inr have "Suc k < length (x # xs) \<and> sendAll sendFn (take (Suc k) (x # xs)) w = Inr w'
                       \<and> sendFn (Some ((x # xs) ! Suc k)) w' = Inl e"
        by simp
      then show ?thesis by blast
    qed
  qed
qed

text \<open>
  C1. For every queue and every send function, \<^verbatim>\<open>flushQueue\<close> sends the envelopes from
  the head on, each from the connection state the previous send left, and shifts an
  envelope off the queue only after its send returned. When every send succeeds the
  queue ends empty. When the send of the envelope at position \<open>k\<close> (counted from 0) is
  the first to fail, the error comes out, the envelopes before \<open>k\<close> are gone and the
  envelopes from \<open>k\<close> on remain, in their order. One of the two always happens, and on
  the empty queue nothing is sent and nothing changes.
\<close>

theorem flushQueue_fifo_stops_at_first_failure:
  "(sendAll sendFn q w = Inr w' \<longrightarrow> flushQueueWith sendFn q w = (None, [], w'))
   \<and> (k < length q \<and> sendAll sendFn (take k q) w = Inr w' \<and> sendFn (Some (q ! k)) w' = Inl e
        \<longrightarrow> flushQueueWith sendFn q w = (Some e, drop k q, w'))
   \<and> ((\<exists>w1. sendAll sendFn q w = Inr w1) \<or>
       (\<exists>j w1 e1. j < length q \<and> sendAll sendFn (take j q) w = Inr w1
           \<and> sendFn (Some (q ! j)) w1 = Inl e1))
   \<and> flushQueueWith sendFn [] w = (None, [], w)"
proof (intro conjI impI)
  assume "sendAll sendFn q w = Inr w'"
  then have "flushLoop sendFn (length q) q w = (None, [], w')"
    by (rule flushLoop_all)
  then show "flushQueueWith sendFn q w = (None, [], w')"
    by (cases q) (simp_all add: flushQueueWith_def)
next
  assume a: "k < length q \<and> sendAll sendFn (take k q) w = Inr w' \<and> sendFn (Some (q ! k)) w' = Inl e"
  then have "flushLoop sendFn (length q) q w = (Some e, drop k q, w')"
    by (simp add: flushLoop_fail)
  with a show "flushQueueWith sendFn q w = (Some e, drop k q, w')"
    by (cases q) (simp_all add: flushQueueWith_def)
next
  show "(\<exists>w1. sendAll sendFn q w = Inr w1) \<or>
       (\<exists>j w1 e1. j < length q \<and> sendAll sendFn (take j q) w = Inr w1
           \<and> sendFn (Some (q ! j)) w1 = Inl e1)"
    by (rule sendAll_cases)
next
  show "flushQueueWith sendFn [] w = (None, [], w)"
    by (simp add: flushQueueWith_def)
qed

theorem flushQueue_fifo_witness:
  "(2::nat) < length [1, 2, 3, 4::nat]
   \<and> sendAll (\<lambda>p w. case p of None \<Rightarrow> Inl (Error ''undefined'')
                    | Some x \<Rightarrow> if x = 3 then Inl (Error ''refused'') else Inr (w @ [x]))
        (take 2 [1, 2, 3, 4::nat]) [] = Inr [1, 2]
   \<and> flushQueueWith (\<lambda>p w. case p of None \<Rightarrow> Inl (Error ''undefined'')
                    | Some x \<Rightarrow> if x = 3 then Inl (Error ''refused'') else Inr (w @ [x]))
        [1, 2, 3, 4::nat] [] = (Some (Error ''refused''), [3, 4], [1, 2])"
proof -
  let ?f = "\<lambda>p w. case p of None \<Rightarrow> Inl (Error ''undefined'')
                    | Some x \<Rightarrow> if x = (3::nat) then Inl (Error ''refused'') else Inr (w @ [x])"
  have h: "(2::nat) < length [1, 2, 3, 4::nat] \<and> sendAll ?f (take 2 [1, 2, 3, 4::nat]) [] = Inr [1, 2]
     \<and> ?f (Some ([1, 2, 3, 4::nat] ! 2)) [1, 2] = Inl (Error ''refused'')"
    by (simp add: numeral_2_eq_2)
  from flushQueue_fifo_stops_at_first_failure [of ?f "[1, 2, 3, 4]" "[]" "[1, 2]" 2 "Error ''refused''"] h
  have "flushQueueWith ?f [1, 2, 3, 4::nat] [] = (Some (Error ''refused''), drop 2 [1, 2, 3, 4], [1, 2])"
    by blast
  with h show ?thesis by (simp add: numeral_2_eq_2)
qed

subsection \<open>The join configuration\<close>

lemma triggerWsConnection_joinChannel [simp]:
  "joinChannel (snd (triggerWsConnection s)) = joinChannel s"
  by (simp add: triggerWsConnection_def setWs_def Let_def split: option.splits)

lemma flushQueue_joinChannel [simp]: "joinChannel (snd (flushQueue cdc s)) = joinChannel s"
  by (simp add: flushQueue_def split: prod.splits)

lemma broadcast_joinChannel [simp]: "joinChannel (broadcast m x s) = joinChannel s"
  by (simp add: broadcast_def)

lemma onJoinChannel_joinChannel:
  "joinChannel (snd (onJoinChannel p s)) = accumulate (joinChannel s) p"
  by (simp add: onJoinChannel_def accumulate_def Let_def split: option.splits)

lemma onPlaintextMessage_joinChannel [simp]:
  "joinChannel (snd (onPlaintextMessage cdc m t s)) = joinChannel s"
  by (simp add: onPlaintextMessage_def Let_def split: option.splits)

lemma onFileMessage_joinChannel [simp]:
  "joinChannel (snd (onFileMessage cdc m t s)) = joinChannel s"
  by (simp add: onFileMessage_def Let_def split: option.splits body.splits)

lemma onTabDisconnected_joinChannel [simp]:
  "joinChannel (snd (onTabDisconnected t s)) = joinChannel s"
  by (simp add: onTabDisconnected_def Let_def split: option.splits sum.splits)

lemma onTabConnected_joinChannel [simp]:
  "joinChannel (onTabConnected t s) = joinChannel s"
  by (simp add: onTabConnected_def Let_def)

lemma onOnline_joinChannel [simp]: "joinChannel (snd (onOnline s)) = joinChannel s"
  by (simp add: onOnline_def Let_def)

lemma onOffline_joinChannel [simp]: "joinChannel (snd (onOffline s)) = joinChannel s"
  by (simp add: onOffline_def setWs_def Let_def split: option.splits sum.splits)

lemma onWsOpen_joinChannel [simp]: "joinChannel (snd (onWsOpen cdc now s)) = joinChannel s"
proof -
  have "joinChannel (snd (case flushQueue cdc t of
                 (Some e, s2) \<Rightarrow> (Some e, s2)
               | (None, s2) \<Rightarrow> (None, broadcast ONLINE None s2))) = joinChannel t" for t
  proof -
    obtain e s2 where fq: "flushQueue cdc t = (e, s2)"
      by (cases "flushQueue cdc t")
    with flushQueue_joinChannel [of cdc t] have "joinChannel s2 = joinChannel t"
      by simp
    with fq show ?thesis
      by (cases e) simp_all
  qed
  then show ?thesis
    by (simp add: onWsOpen_def Let_def split: option.splits sum.splits)
qed

lemma onWsClose_joinChannel [simp]: "joinChannel (snd (onWsClose now s)) = joinChannel s"
  by (simp add: onWsClose_def setWs_def Let_def)

lemma onWsMessage_joinChannel [simp]: "joinChannel (snd (onWsMessage cdc f s)) = joinChannel s"
  by (simp add: onWsMessage_def onWsPlaintextMessage_def onWsFileMessage_def downloadUrl_def
      onMessageAck_def onErrorResponse_def Let_def
      split: sum.splits kiteMsg.splits body.splits option.splits)

lemma step_joinChannel:
  "joinChannel (step cdc ev s) =
     (case ev of
        TabMessage t (Some (JOIN j)) \<Rightarrow> accumulate (joinChannel s) j
      | _ \<Rightarrow> joinChannel s)"
  by (simp add: step_def onTabMessage_def onWsError_def onJoinChannel_joinChannel
      split: event.splits option.splits kiteMsg.splits body.splits)

lemma run_joinChannel:
  "joinChannel (run cdc evs s) = foldl accumulate (joinChannel s) (joinsOf evs)"
proof (induction evs arbitrary: s rule: joinsOf.induct)
  case 1
  then show ?case by simp
next
  case (2 tabPort j evs)
  then show ?case by (simp add: step_joinChannel)
qed (simp_all add: step_joinChannel)

lemma foldl_accumulate_Some:
  "foldl accumulate (Some c) js =
     Some (c\<lparr>eagerlyConnect := eagerlyConnect c \<or> (\<exists>j \<in> set js. eagerlyConnect j)\<rparr>)"
proof (induction js arbitrary: c)
  case Nil
  then show ?case by simp
next
  case (Cons j js)
  have "accumulate (Some c) j = Some (c\<lparr>eagerlyConnect := eagerlyConnect c \<or> eagerlyConnect j\<rparr>)"
    by (simp add: accumulate_def)
  then show ?case by (auto simp: Cons.IH)
qed

lemma flushQueue_fields [simp]:
  "messageHistory (snd (flushQueue cdc s)) = messageHistory s"
  "tabPorts (snd (flushQueue cdc s)) = tabPorts s"
  "posted (snd (flushQueue cdc s)) = posted s"
  "online (snd (flushQueue cdc s)) = online s"
  "connectedTimestampMs (snd (flushQueue cdc s)) = connectedTimestampMs s"
  "reconnectionAttempts (snd (flushQueue cdc s)) = reconnectionAttempts s"
  "timers (snd (flushQueue cdc s)) = timers s"
  "released (snd (flushQueue cdc s)) = released s"
  by (simp_all add: flushQueue_def split: prod.splits)

lemma triggerWsConnection_fields [simp]:
  "messageHistory (snd (triggerWsConnection s)) = messageHistory s"
  "outgoingQueue (snd (triggerWsConnection s)) = outgoingQueue s"
  "tabPorts (snd (triggerWsConnection s)) = tabPorts s"
  "posted (snd (triggerWsConnection s)) = posted s"
  "online (snd (triggerWsConnection s)) = online s"
  "connectedTimestampMs (snd (triggerWsConnection s)) = connectedTimestampMs s"
  "timers (snd (triggerWsConnection s)) = timers s"
  "reconnectionAttempts (snd (triggerWsConnection s)) = reconnectionAttempts s + 1"
  by (simp_all add: triggerWsConnection_def setWs_def Let_def split: option.splits)

lemma onJoinChannel_conflict:
  assumes "joinChannel s = Some c" and "endpoint p \<noteq> endpoint c"
  shows "onJoinChannel p s =
           (Some (Error ''Cannot use different chat endpoints for the same domain''),
            s\<lparr>joinChannel := Some (c\<lparr>eagerlyConnect := eagerlyConnect c \<or> eagerlyConnect p\<rparr>)\<rparr>)"
  using assms by (auto simp: onJoinChannel_def Let_def)

text \<open>
  C5. Over every sequence of events from the start of the worker, the stored
  configuration is the first Join's, with \<^verbatim>\<open>eagerlyConnect\<close> the disjunction of the flags
  of all the Joins so far (none stored while no Join came). A Join whose endpoint differs
  from the stored one throws the configuration-conflict error; the handler leaves the
  socket, the history, the queue, the ports and the stored endpoint as they were, and
  only the stored flag has taken the Join's flag in.
\<close>

theorem join_coalescing:
  "joinChannel (run cdc evs (initial onLine)) =
     (case joinsOf evs of
        [] \<Rightarrow> None
      | j # js \<Rightarrow> Some (j\<lparr>eagerlyConnect := (\<exists>x \<in> set (j # js). eagerlyConnect x)\<rparr>))
   \<and> (joinChannel s = Some c \<and> endpoint p \<noteq> endpoint c \<longrightarrow>
        onJoinChannel p s =
          (Some (Error ''Cannot use different chat endpoints for the same domain''),
           s\<lparr>joinChannel := Some (c\<lparr>eagerlyConnect := eagerlyConnect c \<or> eagerlyConnect p\<rparr>)\<rparr>))"
proof (intro conjI impI)
  have start: "joinChannel (initial onLine :: 'a worker) = None"
    by (simp add: initial_def)
  show "joinChannel (run cdc evs (initial onLine)) =
     (case joinsOf evs of
        [] \<Rightarrow> None
      | j # js \<Rightarrow> Some (j\<lparr>eagerlyConnect := (\<exists>x \<in> set (j # js). eagerlyConnect x)\<rparr>))"
  proof (cases "joinsOf evs")
    case Nil
    with start show ?thesis by (simp add: run_joinChannel)
  next
    case (Cons j js)
    have "accumulate None j = Some j"
      by (simp add: accumulate_def)
    with Cons start show ?thesis
      by (simp add: run_joinChannel foldl_accumulate_Some)
  qed
next
  assume "joinChannel s = Some c \<and> endpoint p \<noteq> endpoint c"
  then show "onJoinChannel p s =
          (Some (Error ''Cannot use different chat endpoints for the same domain''),
           s\<lparr>joinChannel := Some (c\<lparr>eagerlyConnect := eagerlyConnect c \<or> eagerlyConnect p\<rparr>)\<rparr>)"
    by (simp add: onJoinChannel_conflict)
qed

theorem join_coalescing_witness:
  "joinChannel (run loopback
      [TabConnected 1, TabMessage 1 (Some (JOIN (joinOf ''wss://a/ws?c=x'' False))),
       TabConnected 2, TabMessage 2 (Some (JOIN (joinOf ''wss://b/ws?c=y'' True)))]
      (initial True)) = Some (joinOf ''wss://a/ws?c=x'' True)
   \<and> onJoinChannel (joinOf ''wss://b/ws?c=y'' False)
        ((initial True :: kiteMsg worker)\<lparr>joinChannel := Some (joinOf ''wss://a/ws?c=x'' False)\<rparr>) =
      (Some (Error ''Cannot use different chat endpoints for the same domain''),
       (initial True)\<lparr>joinChannel := Some (joinOf ''wss://a/ws?c=x'' False)\<rparr>)"
  using join_coalescing [of loopback
      "[TabConnected 1, TabMessage 1 (Some (JOIN (joinOf ''wss://a/ws?c=x'' False))),
       TabConnected 2, TabMessage 2 (Some (JOIN (joinOf ''wss://b/ws?c=y'' True)))]" True
      "(initial True)\<lparr>joinChannel := Some (joinOf ''wss://a/ws?c=x'' False)\<rparr>"
      "joinOf ''wss://a/ws?c=x'' False" "joinOf ''wss://b/ws?c=y'' False"]
  by (simp add: joinOf_def)

lemma run_endpoint:
  "joinChannel s = Some c \<Longrightarrow> map_option endpoint (joinChannel (run cdc evs s)) = Some (endpoint c)"
  by (simp add: run_joinChannel foldl_accumulate_Some)

text \<open>
  C10. A Join whose endpoint differs from the stored one has its \<^verbatim>\<open>eagerlyConnect\<close>
  or-ed into the stored configuration before the error is thrown, so the state the
  rejected Join leaves can hold \<open>True\<close> where \<open>False\<close> was stored. The stored endpoint
  is the same after any Join, and after any sequence of events, once a configuration is
  stored.
\<close>

theorem rejected_join_still_sets_eagerlyConnect:
  "(joinChannel s = Some c \<and> endpoint p \<noteq> endpoint c \<longrightarrow>
      fst (onJoinChannel p s) =
        Some (Error ''Cannot use different chat endpoints for the same domain'')
      \<and> joinChannel (snd (onJoinChannel p s)) =
          Some (c\<lparr>eagerlyConnect := eagerlyConnect c \<or> eagerlyConnect p\<rparr>))
   \<and> (joinChannel s = Some c \<longrightarrow>
        map_option endpoint (joinChannel (snd (onJoinChannel p s))) = Some (endpoint c))
   \<and> (joinChannel s = Some c \<longrightarrow>
        map_option endpoint (joinChannel (run cdc evs s)) = Some (endpoint c))"
  by (simp add: onJoinChannel_conflict run_endpoint onJoinChannel_joinChannel accumulate_def)

theorem rejected_join_witness:
  "fst (onJoinChannel (joinOf ''wss://b/ws?c=y'' True)
         ((initial True :: kiteMsg worker)\<lparr>joinChannel := Some (joinOf ''wss://a/ws?c=x'' False)\<rparr>)) =
     Some (Error ''Cannot use different chat endpoints for the same domain'')
   \<and> joinChannel (snd (onJoinChannel (joinOf ''wss://b/ws?c=y'' True)
         ((initial True :: kiteMsg worker)\<lparr>joinChannel := Some (joinOf ''wss://a/ws?c=x'' False)\<rparr>))) =
     Some (joinOf ''wss://a/ws?c=x'' True)
   \<and> map_option endpoint (joinChannel (run loopback
         [TabMessage 2 (Some (JOIN (joinOf ''wss://b/ws?c=y'' True)))]
         ((initial True)\<lparr>joinChannel := Some (joinOf ''wss://a/ws?c=x'' False)\<rparr>))) =
     Some ''wss://a/ws?c=x''"
  using rejected_join_still_sets_eagerlyConnect [of
      "(initial True)\<lparr>joinChannel := Some (joinOf ''wss://a/ws?c=x'' False)\<rparr>"
      "joinOf ''wss://a/ws?c=x'' False" "joinOf ''wss://b/ws?c=y'' True" loopback
      "[TabMessage 2 (Some (JOIN (joinOf ''wss://b/ws?c=y'' True)))]"]
  by (simp add: joinOf_def)

subsection \<open>Replay on attach\<close>

text \<open>
  C6. A tab that connects is added to the ports and is at once posted one \<^verbatim>\<open>CONNECTED\<close>
  message that carries the whole \<^verbatim>\<open>messageHistory\<close>, every entry, in the order of the
  array; the history itself is not changed. The array is in append order: a message from
  a tab or from the socket is pushed at its end.
\<close>

theorem attach_replays_history:
  "posted (onTabConnected port s) = posted s @ [(port, CONNECTED (messageHistory s))]
   \<and> messageHistory (onTabConnected port s) = messageHistory s
   \<and> port \<in> set (tabPorts (onTabConnected port s))
   \<and> messageHistory (snd (onPlaintextMessage cdc m tabPort s)) = messageHistory s @ [m]
   \<and> messageHistory (snd (onFileMessage cdc m tabPort s)) = messageHistory s @ [m]
   \<and> messageHistory (onWsPlaintextMessage m s) = messageHistory s @ [m]"
proof (intro conjI)
  show "messageHistory (snd (onPlaintextMessage cdc m tabPort s)) = messageHistory s @ [m]"
    by (simp add: onPlaintextMessage_def broadcast_def Let_def split: option.splits)
  show "messageHistory (snd (onFileMessage cdc m tabPort s)) = messageHistory s @ [m]"
    by (simp add: onFileMessage_def broadcast_def Let_def split: option.splits body.splits)
  show "messageHistory (onWsPlaintextMessage m s) = messageHistory s @ [m]"
    by (simp add: onWsPlaintextMessage_def broadcast_def)
qed (simp_all add: onTabConnected_def Let_def)

theorem attach_replays_history_witness:
  "posted (run loopback
      [TabConnected 1, TabMessage 1 (Some (JOIN (joinOf ''wss://a/ws?c=x'' False))),
       TabMessage 1 (Some (CONTENT (textMsg ''m1'' ''hi''))),
       WsMessage (CONTENT (textMsg ''m2'' ''hello'')),
       TabMessage 1 (Some (CONTENT (fileMsg ''f1'' ''a.png''))),
       TabConnected 2] (initial False))
   = [(1, CONNECTED []), (1, CONTENT (textMsg ''m2'' ''hello'')),
      (2, CONNECTED [textMsg ''m1'' ''hi'', textMsg ''m2'' ''hello'', fileMsg ''f1'' ''a.png''])]"
proof -
  let ?s = "run loopback
      [TabConnected 1, TabMessage 1 (Some (JOIN (joinOf ''wss://a/ws?c=x'' False))),
       TabMessage 1 (Some (CONTENT (textMsg ''m1'' ''hi''))),
       WsMessage (CONTENT (textMsg ''m2'' ''hello'')),
       TabMessage 1 (Some (CONTENT (fileMsg ''f1'' ''a.png'')))] (initial False)"
  have h: "messageHistory ?s = [textMsg ''m1'' ''hi'', textMsg ''m2'' ''hello'', fileMsg ''f1'' ''a.png'']"
    and p: "posted ?s = [(1, CONNECTED []), (1, CONTENT (textMsg ''m2'' ''hello''))]"
    by (simp_all add: step_def initial_def onTabConnected_def onTabMessage_def onJoinChannel_def
        onPlaintextMessage_def onFileMessage_def onWsMessage_def onWsPlaintextMessage_def
        broadcast_def loopback_def textMsg_def fileMsg_def joinOf_def Let_def)
  have "run loopback
      [TabConnected 1, TabMessage 1 (Some (JOIN (joinOf ''wss://a/ws?c=x'' False))),
       TabMessage 1 (Some (CONTENT (textMsg ''m1'' ''hi''))),
       WsMessage (CONTENT (textMsg ''m2'' ''hello'')),
       TabMessage 1 (Some (CONTENT (fileMsg ''f1'' ''a.png''))),
       TabConnected 2] (initial False) = onTabConnected 2 ?s"
    by (simp add: step_def)
  with attach_replays_history [of 2 ?s] h p show ?thesis
    by simp
qed

subsection \<open>Acknowledgements\<close>

lemma findLast_None: "findLast P xs = None \<longleftrightarrow> (\<forall>x \<in> set xs. \<not> P x)"
  by (induction xs) (auto split: option.splits)

lemma findLast_Some:
  "findLast P xs = Some i \<Longrightarrow>
     i < length xs \<and> P (xs ! i) \<and> (\<forall>j. i < j \<and> j < length xs \<longrightarrow> \<not> P (xs ! j))"
proof (induction xs arbitrary: i)
  case Nil
  then show ?case by simp
next
  case (Cons x xs)
  show ?case
  proof (cases "findLast P xs")
    case None
    with Cons.prems have i0: "i = 0" and px: "P x"
      by (auto split: if_splits)
    from None have "\<forall>y \<in> set xs. \<not> P y"
      by (simp add: findLast_None)
    then have "\<forall>j. 0 < j \<and> j < length (x # xs) \<longrightarrow> \<not> P ((x # xs) ! j)"
      by (auto simp: nth_Cons split: nat.splits)
    with i0 px show ?thesis by simp
  next
    case (Some k)
    with Cons.prems have ik: "i = Suc k" by simp
    from Cons.IH [OF Some] have k: "k < length xs" "P (xs ! k)"
      and later: "\<forall>j. k < j \<and> j < length xs \<longrightarrow> \<not> P (xs ! j)"
      by simp_all
    from later have "\<forall>j. Suc k < j \<and> j < length (x # xs) \<longrightarrow> \<not> P ((x # xs) ! j)"
      by (auto simp: nth_Cons split: nat.splits)
    with ik k show ?thesis by simp
  qed
qed

lemma onMessageAck_posted:
  "posted (onMessageAck a s) = posted s @ map (\<lambda>tabPort. (tabPort, ACK a)) (tabPorts s)"
  by (simp add: onMessageAck_def broadcast_def Let_def split: option.splits)

lemma onMessageAck_found:
  "findLast (\<lambda>msg. messageId msg = ackMessageId a) (messageHistory s) = Some i \<Longrightarrow>
   messageHistory (onMessageAck a s) =
     (messageHistory s)[i := (messageHistory s ! i)
        \<lparr>messageId := destiationMessageId a, status := delivered\<rparr>]"
  by (simp add: onMessageAck_def broadcast_def Let_def)

lemma onMessageAck_no_match:
  "ackMessageId a \<notin> messageId ` set (messageHistory s) \<Longrightarrow>
   onMessageAck a s = s\<lparr>posted := posted s @ map (\<lambda>tabPort. (tabPort, ACK a)) (tabPorts s)\<rparr>"
proof -
  assume "ackMessageId a \<notin> messageId ` set (messageHistory s)"
  then have "\<forall>x \<in> set (messageHistory s). \<not> messageId x = ackMessageId a"
    by (metis imageI)
  then have "findLast (\<lambda>msg. messageId msg = ackMessageId a) (messageHistory s) = None"
    by (simp add: findLast_None)
  then show ?thesis
    by (simp add: onMessageAck_def broadcast_def Let_def)
qed

text \<open>
  The handler on the object it is given: when the history has an entry whose id is the
  id the handler reads from its argument, the last such entry is rewritten in place (id
  and status), no other entry changes, and the argument is posted to every tab.
\<close>

lemma onMessageAck_rewrites_last_match:
  assumes "ackMessageId a \<in> messageId ` set (messageHistory s)"
  shows "\<exists>i < length (messageHistory s).
           messageId (messageHistory s ! i) = ackMessageId a
         \<and> (\<forall>j. i < j \<and> j < length (messageHistory s)
                \<longrightarrow> messageId (messageHistory s ! j) \<noteq> ackMessageId a)
         \<and> messageHistory (onMessageAck a s) =
             (messageHistory s)[i := (messageHistory s ! i)
                \<lparr>messageId := destiationMessageId a, status := delivered\<rparr>]
         \<and> posted (onMessageAck a s) =
             posted s @ map (\<lambda>tabPort. (tabPort, ACK a)) (tabPorts s)"
proof -
  let ?h = "messageHistory s"
  let ?P = "\<lambda>msg. messageId msg = ackMessageId a"
  from assms have "\<not> (\<forall>x \<in> set ?h. \<not> ?P x)" by auto
  then obtain i where fl: "findLast ?P ?h = Some i"
    using findLast_None [of ?P ?h] by (cases "findLast ?P ?h") auto
  from findLast_Some [OF fl] have i: "i < length ?h" and pi: "messageId (?h ! i) = ackMessageId a"
    and later: "\<forall>j. i < j \<and> j < length ?h \<longrightarrow> messageId (?h ! j) \<noteq> ackMessageId a"
    by simp_all
  have h': "messageHistory (onMessageAck a s) =
      ?h[i := (?h ! i)\<lparr>messageId := destiationMessageId a, status := delivered\<rparr>]"
    by (rule onMessageAck_found [OF fl])
  with i pi later onMessageAck_posted [of a s] show ?thesis
    by blast
qed

text \<open>
  The object of the history that the handler assigns to is the object a \<open>Shared\<close>
  element of the queue stands for: a message acknowledged while still queued is sent
  with its new id and status.
\<close>

lemma onMessageAck_shows_in_queue:
  assumes "findLast (\<lambda>msg. messageId msg = ackMessageId a) (messageHistory s) = Some i"
  shows "outgoingQueue (onMessageAck a s) = outgoingQueue s
       \<and> queued (messageHistory (onMessageAck a s)) (Shared i) =
           Some (CONTENT ((messageHistory s ! i)
                   \<lparr>messageId := destiationMessageId a, status := delivered\<rparr>))"
proof -
  from findLast_Some [OF assms] have "i < length (messageHistory s)"
    by simp
  moreover have "outgoingQueue (onMessageAck a s) = outgoingQueue s"
    by (simp add: onMessageAck_def broadcast_def Let_def split: option.splits)
  ultimately show ?thesis
    by (simp add: onMessageAck_found [OF assms])
qed

text \<open>
  So on the example with \<open>m1\<close> and \<open>m2\<close> queued: once \<open>m1\<close> is acknowledged as \<open>m101\<close>,
  the open handler sends it under the new id and as \<^verbatim>\<open>delivered\<close>.
\<close>

lemma acked_while_queued_is_sent_rewritten:
  "frames (the (ws (snd (onWsOpen loopback 1000
      (onMessageAck \<lparr>ackMessageId = Some ''m1'', destiationMessageId = Some ''m101'',
                     ackTimestamp = 5\<rparr> openExample)))))
   = [JOIN (joinOf ''wss://a/ws?c=x'' False),
      CONTENT ((textMsg ''m1'' ''hi'')\<lparr>messageId := Some ''m101'', status := delivered\<rparr>),
      CONTENT (textMsg ''m2'' ''there'')]"
  by (simp add: onWsOpen_def onMessageAck_def send_def wsSend_def flushQueue_def
      flushQueueWith_def openExample_def openSocket_def loopback_def initial_def broadcast_def
      textMsg_def Let_def numeral_2_eq_2)

lemma onWsMessage_ack:
  "decodeKiteMsg cdc payload = Inr (ACK a) \<Longrightarrow>
   onWsMessage cdc payload s = (None, onMessageAck (asAck cdc payload) s)"
  by (simp add: onWsMessage_def)

text \<open>
  C2. The code at the failing input: the history holds \<open>m1\<close> with status \<^verbatim>\<open>unknown\<close>, one
  tab is attached, and the frame of the Ack of \<open>m1\<close> as \<open>m101\<close> arrives on the socket. The
  frame decodes to that Ack, but \<^verbatim>\<open>onWsMessage\<close> hands \<^verbatim>\<open>onMessageAck\<close> the frame, not the
  decoded message: the id read from the frame is \<^verbatim>\<open>undefined\<close> and matches no entry. The
  history is unchanged (\<open>m1\<close> is still \<open>m1\<close> and \<^verbatim>\<open>unknown\<close>, nothing is addressable as
  \<open>m101\<close>) and what is posted to the tab is the frame, which carries no ids. Given the
  decoded Ack, the same handler rewrites the entry to \<open>m101\<close> and \<^verbatim>\<open>delivered\<close>.
\<close>

theorem received_ack_rewrites_nothing:
  "decodeKiteMsg onTheWire
       (Wire (ACK \<lparr>ackMessageId = Some ''m1'', destiationMessageId = Some ''m101'',
                   ackTimestamp = 5\<rparr>))
     = Inr (ACK \<lparr>ackMessageId = Some ''m1'', destiationMessageId = Some ''m101'',
                 ackTimestamp = 5\<rparr>)
   \<and> messageHistory (ackExample :: wire worker) = [textMsg ''m1'' ''hi'']
   \<and> onWsMessage onTheWire
        (Wire (ACK \<lparr>ackMessageId = Some ''m1'', destiationMessageId = Some ''m101'',
                    ackTimestamp = 5\<rparr>)) ackExample
      = (None, ackExample\<lparr>posted :=
           [(7, ACK \<lparr>ackMessageId = None, destiationMessageId = None, ackTimestamp = 0\<rparr>)]\<rparr>)
   \<and> messageHistory (snd (onWsMessage onTheWire
        (Wire (ACK \<lparr>ackMessageId = Some ''m1'', destiationMessageId = Some ''m101'',
                    ackTimestamp = 5\<rparr>)) ackExample))
      = [textMsg ''m1'' ''hi'']
   \<and> Some ''m101'' \<notin> messageId ` set (messageHistory (snd (onWsMessage onTheWire
        (Wire (ACK \<lparr>ackMessageId = Some ''m1'', destiationMessageId = Some ''m101'',
                    ackTimestamp = 5\<rparr>)) ackExample)))
   \<and> messageHistory (onMessageAck
        \<lparr>ackMessageId = Some ''m1'', destiationMessageId = Some ''m101'', ackTimestamp = 5\<rparr>
        (ackExample :: wire worker))
      = [(textMsg ''m1'' ''hi'')\<lparr>messageId := Some ''m101'', status := delivered\<rparr>]"
  by (simp add: onWsMessage_def onMessageAck_def onTheWire_def ackExample_def initial_def
      textMsg_def broadcast_def Let_def)

subsection \<open>Frames of the backend\<close>

text \<open>
  C4 as stated fails: with \<open>f1\<close> and \<open>f2\<close> in the history and one tab attached, the
  notification that both were archived into \<open>m200\<close> leaves the worker as it was. The
  history still holds \<open>f1\<close> and \<open>f2\<close> and no \<open>m200\<close>, and nothing is posted to the tab.
\<close>

theorem zip_notification_counterexample:
  "onWsMessage loopback (Zipped ''m200'' [''f1'', ''f2''] (File ''a.zip'' ''application/zip'' 20))
      zipExample = (None, zipExample)
   \<and> map messageId (messageHistory (snd (onWsMessage loopback
        (Zipped ''m200'' [''f1'', ''f2''] (File ''a.zip'' ''application/zip'' 20)) zipExample)))
      = [Some ''f1'', Some ''f2'']
   \<and> posted (snd (onWsMessage loopback
        (Zipped ''m200'' [''f1'', ''f2''] (File ''a.zip'' ''application/zip'' 20)) zipExample)) = []"
  by (simp add: onWsMessage_def loopback_def zipExample_def initial_def fileMsg_def)

text \<open>
  C4 (amended). A frame of the backend that decodes to the notification that the file
  messages \<open>f1..fk\<close> were archived into the message \<open>m\<close> has no case in \<^verbatim>\<open>onWsMessage\<close>:
  the handler returns without an error and the worker is unchanged, so the history keeps
  every entry it had, gains none, and no tab is posted anything.
\<close>

theorem zip_notification_ignored:
  "decodeKiteMsg cdc payload = Inr (Zipped m zippedIds f)
     \<Longrightarrow> onWsMessage cdc payload s = (None, s)"
  by (simp add: onWsMessage_def)

theorem zip_notification_ignored_witness:
  "decodeKiteMsg loopback (Zipped ''m200'' [''f1'', ''f2''] (File ''a.zip'' ''application/zip'' 20))
     = Inr (Zipped ''m200'' [''f1'', ''f2''] (File ''a.zip'' ''application/zip'' 20))
   \<and> onWsMessage loopback (Zipped ''m200'' [''f1'', ''f2''] (File ''a.zip'' ''application/zip'' 20))
        zipExample = (None, zipExample)"
proof -
  have d: "decodeKiteMsg loopback (Zipped ''m200'' [''f1'', ''f2''] (File ''a.zip'' ''application/zip'' 20))
     = Inr (Zipped ''m200'' [''f1'', ''f2''] (File ''a.zip'' ''application/zip'' 20))"
    by (simp add: loopback_def)
  from zip_notification_ignored [OF d] d show ?thesis
    by simp
qed

text \<open>
  C8. The code at an incoming binary-reference message: \<^verbatim>\<open>downloadUrl\<close> throws for every
  url, so the promise of \<^verbatim>\<open>onWsFileMessage\<close> is rejected with that error and the worker
  is unchanged: the message is not in the history and nothing, in particular no failed
  message, is posted to any tab. Here for every message and state, and through
  \<^verbatim>\<open>onWsMessage\<close> for one frame.
\<close>

theorem bin_message_rejected_and_dropped:
  "onWsFileMessage b s = (Some (Error (''Not implemented downloading of '' @ binUrl b)), s)
   \<and> onWsMessage loopback
        (BIN \<lparr>binMessageId = Some ''b1'', binTimestamp = 0, binStatus = unknown, binEdited = False,
              binUrl = ''https://files/b1''\<rparr>) zipExample
      = (Some (Error ''Not implemented downloading of https://files/b1''), zipExample)"
  by (simp add: onWsFileMessage_def downloadUrl_def onWsMessage_def loopback_def)

subsection \<open>The open handler\<close>

lemma flushQueueWith_all:
  "sendAll sendFn q w = Inr w' \<Longrightarrow> flushQueueWith sendFn q w = (None, [], w')"
  using flushLoop_all [of sendFn q w w'] by (cases q) (simp_all add: flushQueueWith_def)

lemma flushQueueWith_fail:
  "k < length q \<Longrightarrow> sendAll sendFn (take k q) w = Inr w' \<Longrightarrow> sendFn (Some (q ! k)) w' = Inl e
     \<Longrightarrow> flushQueueWith sendFn q w = (Some e, drop k q, w')"
  using flushLoop_fail [of k q sendFn w w' e] by (cases q) (simp_all add: flushQueueWith_def)

lemma send_open:
  "readyState sock = OPEN \<Longrightarrow>
   send cdc p (Some sock) =
     (case encodeKiteMsg cdc p of
        Inl e \<Rightarrow> Inl e
      | Inr f \<Rightarrow> Inr (Some (sock\<lparr>frames := frames sock @ [f]\<rparr>)))"
  by (simp add: send_def wsSend_def split: sum.splits)

lemma sendAll_open:
  "readyState sock = OPEN \<Longrightarrow> sendAll (\<lambda>p. send cdc (g p)) ms (Some sock) = Inr w' \<Longrightarrow>
   \<exists>fs. w' = Some (sock\<lparr>frames := frames sock @ fs\<rparr>)
      \<and> map (\<lambda>m. encodeKiteMsg cdc (g (Some m))) ms = map Inr fs"
proof (induction ms arbitrary: sock)
  case Nil
  then have "w' = Some (sock\<lparr>frames := frames sock @ []\<rparr>)" by simp
  then show ?case by (intro exI [of _ "[]"]) simp
next
  case (Cons m ms)
  from Cons.prems obtain f where f: "encodeKiteMsg cdc (g (Some m)) = Inr f"
    by (cases "encodeKiteMsg cdc (g (Some m))") (simp_all add: send_open)
  let ?sock1 = "sock\<lparr>frames := frames sock @ [f]\<rparr>"
  from Cons.prems f have "sendAll (\<lambda>p. send cdc (g p)) ms (Some ?sock1) = Inr w'"
    by (simp add: send_open)
  moreover have "readyState ?sock1 = OPEN"
    using Cons.prems by simp
  ultimately obtain fs where "w' = Some (?sock1\<lparr>frames := frames ?sock1 @ fs\<rparr>)"
    and "map (\<lambda>m. encodeKiteMsg cdc (g (Some m))) ms = map Inr fs"
    using Cons.IH [of ?sock1] by blast
  with f have "w' = Some (sock\<lparr>frames := frames sock @ (f # fs)\<rparr>)
      \<and> map (\<lambda>m. encodeKiteMsg cdc (g (Some m))) (m # ms) = map Inr (f # fs)"
    by simp
  then show ?case by blast
qed

lemma flushQueue_open:
  assumes w: "ws s = Some sock" and o: "readyState sock = OPEN"
  shows "\<exists>k fs. k \<le> length (outgoingQueue s)
           \<and> map (\<lambda>m. encodeKiteMsg cdc (queued (messageHistory s) m))
                 (take k (outgoingQueue s)) = map Inr fs
           \<and> snd (flushQueue cdc s) =
               s\<lparr>ws := Some (sock\<lparr>frames := frames sock @ fs\<rparr>),
                 outgoingQueue := drop k (outgoingQueue s)\<rparr>
           \<and> (k = length (outgoingQueue s) \<longrightarrow> fst (flushQueue cdc s) = None)
           \<and> (k < length (outgoingQueue s) \<longrightarrow>
                 (\<exists>e. fst (flushQueue cdc s) = Some e
                     \<and> encodeKiteMsg cdc (queued (messageHistory s) (outgoingQueue s ! k))
                         = Inl e))"
proof -
  let ?q = "outgoingQueue s"
  let ?g = "\<lambda>payload. case payload of None \<Rightarrow> None | Some x \<Rightarrow> queued (messageHistory s) x"
  let ?f = "\<lambda>payload. send cdc (?g payload)"
  have fq: "flushQueue cdc s =
      (case flushQueueWith ?f ?q (ws s) of (e, q, w) \<Rightarrow> (e, s\<lparr>ws := w, outgoingQueue := q\<rparr>))"
    by (simp add: flushQueue_def)
  from sendAll_cases [of ?f ?q "Some sock"] show ?thesis
  proof
    assume "\<exists>w'. sendAll ?f ?q (Some sock) = Inr w'"
    then obtain w' where all: "sendAll ?f ?q (Some sock) = Inr w'" ..
    from sendAll_open [of sock cdc ?g, OF o all] obtain fs where
      w': "w' = Some (sock\<lparr>frames := frames sock @ fs\<rparr>)"
      and fs: "map (\<lambda>m. encodeKiteMsg cdc (queued (messageHistory s) m)) ?q = map Inr fs"
      by auto
    from flushQueueWith_all [OF all] w w' fq have
      "flushQueue cdc s = (None, s\<lparr>ws := Some (sock\<lparr>frames := frames sock @ fs\<rparr>),
                                   outgoingQueue := drop (length ?q) ?q\<rparr>)"
      by simp
    with fs show ?thesis
      by (intro exI [of _ "length ?q"] exI [of _ fs]) simp
  next
    assume "\<exists>k w' e. k < length ?q \<and> sendAll ?f (take k ?q) (Some sock) = Inr w'
              \<and> ?f (Some (?q ! k)) w' = Inl e"
    then obtain k w' e where k: "k < length ?q"
      and pre: "sendAll ?f (take k ?q) (Some sock) = Inr w'"
      and bad: "?f (Some (?q ! k)) w' = Inl e"
      by blast
    from sendAll_open [of sock cdc ?g, OF o pre] obtain fs where
      w': "w' = Some (sock\<lparr>frames := frames sock @ fs\<rparr>)"
      and fs: "map (\<lambda>m. encodeKiteMsg cdc (queued (messageHistory s) m)) (take k ?q) = map Inr fs"
      by auto
    from bad w' o have enc: "encodeKiteMsg cdc (queued (messageHistory s) (?q ! k)) = Inl e"
      by (cases "encodeKiteMsg cdc (queued (messageHistory s) (?q ! k))")
        (simp_all add: send_open)
    from flushQueueWith_fail [OF k pre bad] w w' fq have
      "flushQueue cdc s = (Some e, s\<lparr>ws := Some (sock\<lparr>frames := frames sock @ fs\<rparr>),
                                     outgoingQueue := drop k ?q\<rparr>)"
      by simp
    with fs k enc show ?thesis
      by (intro exI [of _ k] exI [of _ fs]) simp
  qed
qed

lemma onWsOpen_open:
  assumes w: "ws s = Some sock" and o: "readyState sock = OPEN"
    and j: "joinChannel s = Some jc" and ej: "encodeKiteMsg cdc (Some (JOIN jc)) = Inr fj"
  shows "\<exists>k fs. k \<le> length (outgoingQueue s)
           \<and> map (\<lambda>m. encodeKiteMsg cdc (queued (messageHistory s) m))
                 (take k (outgoingQueue s)) = map Inr fs
           \<and> snd (onWsOpen cdc now s) =
               s\<lparr>ws := Some (sock\<lparr>frames := frames sock @ fj # fs\<rparr>),
                 outgoingQueue := drop k (outgoingQueue s),
                 posted := posted s @ (if k = length (outgoingQueue s)
                                       then map (\<lambda>tabPort. (tabPort, ONLINE)) (tabPorts s) else []),
                 connectedTimestampMs := now\<rparr>
           \<and> (k = length (outgoingQueue s) \<longrightarrow> fst (onWsOpen cdc now s) = None)
           \<and> (k < length (outgoingQueue s) \<longrightarrow>
                 (\<exists>e. fst (onWsOpen cdc now s) = Some e
                     \<and> encodeKiteMsg cdc (queued (messageHistory s) (outgoingQueue s ! k))
                         = Inl e))"
proof -
  let ?sock1 = "sock\<lparr>frames := frames sock @ [fj]\<rparr>"
  let ?s2 = "s\<lparr>connectedTimestampMs := now, ws := Some ?sock1\<rparr>"
  have step1: "onWsOpen cdc now s =
      (case flushQueue cdc ?s2 of
         (Some e, s3) \<Rightarrow> (Some e, s3)
       | (None, s3) \<Rightarrow> (None, broadcast ONLINE None s3))"
    using w o j ej by (simp add: onWsOpen_def Let_def send_open)
  have "ws ?s2 = Some ?sock1" and "readyState ?sock1 = OPEN"
    using o by simp_all
  from flushQueue_open [OF this, of cdc] obtain k fs where
    k: "k \<le> length (outgoingQueue s)"
    and fs: "map (\<lambda>m. encodeKiteMsg cdc (queued (messageHistory s) m))
               (take k (outgoingQueue s)) = map Inr fs"
    and st: "snd (flushQueue cdc ?s2) =
               ?s2\<lparr>ws := Some (?sock1\<lparr>frames := frames ?sock1 @ fs\<rparr>),
                   outgoingQueue := drop k (outgoingQueue ?s2)\<rparr>"
    and ok: "k = length (outgoingQueue s) \<longrightarrow> fst (flushQueue cdc ?s2) = None"
    and bad: "k < length (outgoingQueue s) \<longrightarrow>
                 (\<exists>e. fst (flushQueue cdc ?s2) = Some e
                     \<and> encodeKiteMsg cdc (queued (messageHistory s) (outgoingQueue s ! k))
                         = Inl e)"
    by auto
  obtain err s3 where fq: "flushQueue cdc ?s2 = (err, s3)"
    by (cases "flushQueue cdc ?s2")
  show ?thesis
  proof (cases "k = length (outgoingQueue s)")
    case True
    with ok fq have "err = None" by simp
    with step1 fq st True have
      "onWsOpen cdc now s = (None,
         s\<lparr>ws := Some (sock\<lparr>frames := frames sock @ fj # fs\<rparr>),
           outgoingQueue := drop k (outgoingQueue s),
           posted := posted s @ map (\<lambda>tabPort. (tabPort, ONLINE)) (tabPorts s),
           connectedTimestampMs := now\<rparr>)"
      by (simp add: broadcast_def)
    with True fs show ?thesis
      by (intro exI [of _ k] exI [of _ fs]) simp
  next
    case False
    with k have lt: "k < length (outgoingQueue s)" by simp
    with bad fq obtain e where e: "err = Some e"
      and enc: "encodeKiteMsg cdc (queued (messageHistory s) (outgoingQueue s ! k)) = Inl e"
      by auto
    with step1 fq st have
      "onWsOpen cdc now s = (Some e,
         s\<lparr>ws := Some (sock\<lparr>frames := frames sock @ fj # fs\<rparr>),
           outgoingQueue := drop k (outgoingQueue s),
           posted := posted s @ [],
           connectedTimestampMs := now\<rparr>)"
      by simp
    with lt fs enc show ?thesis
      by (intro exI [of _ k] exI [of _ fs]) simp
  qed
qed

lemma onWsOpen_not_open:
  assumes "\<forall>sock. ws s = Some sock \<longrightarrow> readyState sock \<noteq> OPEN"
  shows "fst (onWsOpen cdc now s) \<noteq> None
       \<and> snd (onWsOpen cdc now s) = s\<lparr>connectedTimestampMs := now\<rparr>"
  using assms by (cases "ws s") (auto simp: onWsOpen_def Let_def send_def split: option.splits)

text \<open>
  C9. When the open handler runs while the socket held in \<^verbatim>\<open>ws\<close> is open, with the
  join configuration stored and its frame encodable, the frames put on that socket are
  the join frame first and then the frames of the queued messages in queue order, up to the
  first message (if any) whose encoding throws; the messages sent have left the queue,
  and \<^verbatim>\<open>ONLINE\<close> is posted to every tab exactly when the whole queue was flushed, after
  the flush. When \<^verbatim>\<open>ws\<close> holds no open socket the handler throws before it sends or
  posts anything.
\<close>

theorem open_sends_join_then_queue_then_online:
  "(ws s = Some sock \<and> readyState sock = OPEN \<and> joinChannel s = Some jc
      \<and> encodeKiteMsg cdc (Some (JOIN jc)) = Inr fj \<longrightarrow>
     (\<exists>k fs. k \<le> length (outgoingQueue s)
           \<and> map (\<lambda>m. encodeKiteMsg cdc (queued (messageHistory s) m))
                 (take k (outgoingQueue s)) = map Inr fs
           \<and> snd (onWsOpen cdc now s) =
               s\<lparr>ws := Some (sock\<lparr>frames := frames sock @ fj # fs\<rparr>),
                 outgoingQueue := drop k (outgoingQueue s),
                 posted := posted s @ (if k = length (outgoingQueue s)
                                       then map (\<lambda>tabPort. (tabPort, ONLINE)) (tabPorts s) else []),
                 connectedTimestampMs := now\<rparr>
           \<and> (k = length (outgoingQueue s) \<longrightarrow> fst (onWsOpen cdc now s) = None)
           \<and> (k < length (outgoingQueue s) \<longrightarrow>
                 (\<exists>e. fst (onWsOpen cdc now s) = Some e
                     \<and> encodeKiteMsg cdc (queued (messageHistory s) (outgoingQueue s ! k))
                         = Inl e))))
   \<and> ((\<forall>sock. ws s = Some sock \<longrightarrow> readyState sock \<noteq> OPEN) \<longrightarrow>
        fst (onWsOpen cdc now s) \<noteq> None
        \<and> snd (onWsOpen cdc now s) = s\<lparr>connectedTimestampMs := now\<rparr>)"
proof (intro conjI impI)
  assume "ws s = Some sock \<and> readyState sock = OPEN \<and> joinChannel s = Some jc
      \<and> encodeKiteMsg cdc (Some (JOIN jc)) = Inr fj"
  then have "ws s = Some sock" "readyState sock = OPEN" "joinChannel s = Some jc"
    "encodeKiteMsg cdc (Some (JOIN jc)) = Inr fj"
    by simp_all
  then show "\<exists>k fs. k \<le> length (outgoingQueue s)
           \<and> map (\<lambda>m. encodeKiteMsg cdc (queued (messageHistory s) m))
                 (take k (outgoingQueue s)) = map Inr fs
           \<and> snd (onWsOpen cdc now s) =
               s\<lparr>ws := Some (sock\<lparr>frames := frames sock @ fj # fs\<rparr>),
                 outgoingQueue := drop k (outgoingQueue s),
                 posted := posted s @ (if k = length (outgoingQueue s)
                                       then map (\<lambda>tabPort. (tabPort, ONLINE)) (tabPorts s) else []),
                 connectedTimestampMs := now\<rparr>
           \<and> (k = length (outgoingQueue s) \<longrightarrow> fst (onWsOpen cdc now s) = None)
           \<and> (k < length (outgoingQueue s) \<longrightarrow>
                 (\<exists>e. fst (onWsOpen cdc now s) = Some e
                     \<and> encodeKiteMsg cdc (queued (messageHistory s) (outgoingQueue s ! k))
                         = Inl e))"
    by (rule onWsOpen_open)
next
  assume a: "\<forall>sock. ws s = Some sock \<longrightarrow> readyState sock \<noteq> OPEN"
  from onWsOpen_not_open [OF a] show "fst (onWsOpen cdc now s) \<noteq> None" by simp
  from onWsOpen_not_open [OF a] show "snd (onWsOpen cdc now s) = s\<lparr>connectedTimestampMs := now\<rparr>"
    by simp
qed

theorem open_sends_join_witness:
  "ws openExample = Some (openSocket ''wss://a/ws?c=x'')
   \<and> readyState (openSocket ''wss://a/ws?c=x'' :: kiteMsg socket) = OPEN
   \<and> joinChannel openExample = Some (joinOf ''wss://a/ws?c=x'' False)
   \<and> encodeKiteMsg loopback (Some (JOIN (joinOf ''wss://a/ws?c=x'' False)))
        = Inr (JOIN (joinOf ''wss://a/ws?c=x'' False))
   \<and> (\<exists>k fs. k \<le> length (outgoingQueue openExample)
        \<and> map (\<lambda>m. encodeKiteMsg loopback (queued (messageHistory openExample) m))
              (take k (outgoingQueue openExample)) = map Inr fs
        \<and> snd (onWsOpen loopback 1000 openExample) =
            openExample\<lparr>ws := Some ((openSocket ''wss://a/ws?c=x'')
                \<lparr>frames := frames (openSocket ''wss://a/ws?c=x'')
                     @ JOIN (joinOf ''wss://a/ws?c=x'' False) # fs\<rparr>),
              outgoingQueue := drop k (outgoingQueue openExample),
              posted := posted openExample @ (if k = length (outgoingQueue openExample)
                          then map (\<lambda>tabPort. (tabPort, ONLINE)) (tabPorts openExample) else []),
              connectedTimestampMs := 1000\<rparr>)
   \<and> frames (the (ws (snd (onWsOpen loopback 1000 openExample))))
        = [JOIN (joinOf ''wss://a/ws?c=x'' False), CONTENT (textMsg ''m1'' ''hi''),
           CONTENT (textMsg ''m2'' ''there'')]
   \<and> posted (snd (onWsOpen loopback 1000 openExample)) = [(7, ONLINE), (8, ONLINE)]
   \<and> outgoingQueue (snd (onWsOpen loopback 1000 openExample)) = []"
proof -
  have h: "ws openExample = Some (openSocket ''wss://a/ws?c=x'')
     \<and> readyState (openSocket ''wss://a/ws?c=x'' :: kiteMsg socket) = OPEN
     \<and> joinChannel openExample = Some (joinOf ''wss://a/ws?c=x'' False)
     \<and> encodeKiteMsg loopback (Some (JOIN (joinOf ''wss://a/ws?c=x'' False)))
        = Inr (JOIN (joinOf ''wss://a/ws?c=x'' False))"
    by (simp add: openExample_def openSocket_def loopback_def initial_def)
  have run: "frames (the (ws (snd (onWsOpen loopback 1000 openExample))))
        = [JOIN (joinOf ''wss://a/ws?c=x'' False), CONTENT (textMsg ''m1'' ''hi''),
           CONTENT (textMsg ''m2'' ''there'')]
   \<and> posted (snd (onWsOpen loopback 1000 openExample)) = [(7, ONLINE), (8, ONLINE)]
   \<and> outgoingQueue (snd (onWsOpen loopback 1000 openExample)) = []"
    by (simp add: onWsOpen_def send_def wsSend_def flushQueue_def flushQueueWith_def
        openExample_def openSocket_def loopback_def initial_def broadcast_def Let_def numeral_2_eq_2)
  from open_sends_join_then_queue_then_online
    [of openExample "openSocket ''wss://a/ws?c=x''" "joinOf ''wss://a/ws?c=x'' False" loopback
        "JOIN (joinOf ''wss://a/ws?c=x'' False)" 1000] h
  have "\<exists>k fs. k \<le> length (outgoingQueue openExample)
        \<and> map (\<lambda>m. encodeKiteMsg loopback (queued (messageHistory openExample) m))
              (take k (outgoingQueue openExample)) = map Inr fs
        \<and> snd (onWsOpen loopback 1000 openExample) =
            openExample\<lparr>ws := Some ((openSocket ''wss://a/ws?c=x'')
                \<lparr>frames := frames (openSocket ''wss://a/ws?c=x'')
                     @ JOIN (joinOf ''wss://a/ws?c=x'' False) # fs\<rparr>),
              outgoingQueue := drop k (outgoingQueue openExample),
              posted := posted openExample @ (if k = length (outgoingQueue openExample)
                          then map (\<lambda>tabPort. (tabPort, ONLINE)) (tabPorts openExample) else []),
              connectedTimestampMs := 1000\<rparr>"
    by blast
  with h run show ?thesis by blast
qed

subsection \<open>Detach, attach and reconnection\<close>

lemma detachedExample_eq:
  "detachedExample =
     \<lparr>ws = None, joinChannel = Some (joinOf ''wss://a/ws?c=x'' False),
      messageHistory = [textMsg ''m1'' ''hi''], outgoingQueue = [Shared 0],
      tabPorts = [], posted = [(1, CONNECTED [])], online = True, connectedTimestampMs = 0,
      reconnectionAttempts = 1, timers = [],
      released = [\<lparr>url = ''wss://a/ws?c=x'', readyState = CLOSED, frames = [],
                    closeCalls = []\<rparr>]\<rparr>"
  by (simp add: detachedExample_def step_def initial_def onTabConnected_def onTabMessage_def
      onJoinChannel_def onPlaintextMessage_def onTabDisconnected_def onWsClose_def
      triggerWsConnection_def setWs_def newWebSocket_def wsClose_def broadcast_def
      WS_CLOSE_REASON_GONE_AWAY_def joinOf_def textMsg_def Let_def)

text \<open>
  C7 as stated fails. A tab joins, sends \<open>m1\<close> and detaches before the socket opens; the
  connection attempt fails and the close event of the socket, with no tab left, clears
  \<^verbatim>\<open>ws\<close>. The worker is online with \<open>m1\<close> queued and no socket. A second tab now
  attaches and joins: the count of connection attempts stays at the one attempt of the
  first send, no socket is created and no timer is set. Zero attempts, not one.
\<close>

theorem attach_triggers_no_reconnect_counterexample:
  "tabPorts detachedExample = [] \<and> ws detachedExample = None \<and> online detachedExample
   \<and> map (queued (messageHistory detachedExample)) (outgoingQueue detachedExample)
       = [Some (CONTENT (textMsg ''m1'' ''hi''))]
   \<and> reconnectionAttempts detachedExample = 1
   \<and> reconnectionAttempts (onTabConnected 2 detachedExample) = 1
   \<and> ws (onTabConnected 2 detachedExample) = None
   \<and> timers (onTabConnected 2 detachedExample) = []
   \<and> reconnectionAttempts (run loopback
        [TabConnected 2, TabMessage 2 (Some (JOIN (joinOf ''wss://a/ws?c=x'' False)))]
        detachedExample) = 1
   \<and> ws (run loopback
        [TabConnected 2, TabMessage 2 (Some (JOIN (joinOf ''wss://a/ws?c=x'' False)))]
        detachedExample) = None"
  by (simp add: detachedExample_eq step_def onTabConnected_def onTabMessage_def
      onJoinChannel_def joinOf_def Let_def)

text \<open>
  The detach of the last tab, on the code: the port is deleted and \<^verbatim>\<open>ws.close\<close> is called
  with the code 1001, which \<^verbatim>\<open>close\<close> refuses. The handler ends with that error and the
  socket is as it was.
\<close>

lemma onTabDisconnected_last:
  "tabPorts s = [port] \<Longrightarrow> ws s = Some sock \<Longrightarrow>
   onTabDisconnected port s = (Some (Error ''InvalidAccessError''), s\<lparr>tabPorts := []\<rparr>)"
  by (simp add: onTabDisconnected_def wsClose_def WS_CLOSE_REASON_GONE_AWAY_def Let_def)

lemma onTabConnected_no_attempt:
  "ws (onTabConnected port s) = ws s
   \<and> reconnectionAttempts (onTabConnected port s) = reconnectionAttempts s
   \<and> timers (onTabConnected port s) = timers s
   \<and> released (onTabConnected port s) = released s
   \<and> outgoingQueue (onTabConnected port s) = outgoingQueue s"
  by (simp add: onTabConnected_def Let_def)

lemma onJoinChannel_attempts:
  "reconnectionAttempts (snd (onJoinChannel p s)) =
     reconnectionAttempts s +
       (if ws s = None
           \<and> (case joinChannel s of
                 None \<Rightarrow> eagerlyConnect p
               | Some c \<Rightarrow> endpoint c = endpoint p \<and> (eagerlyConnect c \<or> eagerlyConnect p))
        then 1 else 0)"
  by (auto simp: onJoinChannel_def triggerWsConnection_def setWs_def Let_def split: option.splits)

text \<open>
  C7 (amended). A tab that attaches triggers no connection attempt in any state, so also
  after the last tab has detached, whatever \<^verbatim>\<open>online\<close> and the queue are: the socket, the
  attempt counter, the timers and the queue are as before. The Join that the tab then
  sends triggers exactly one attempt when no socket is held, its endpoint is the stored
  one and the accumulated \<^verbatim>\<open>eagerlyConnect\<close> is true, and no attempt otherwise.
\<close>

theorem attach_never_connects_join_at_most_once:
  "ws (onTabConnected port s) = ws s
   \<and> reconnectionAttempts (onTabConnected port s) = reconnectionAttempts s
   \<and> timers (onTabConnected port s) = timers s
   \<and> outgoingQueue (onTabConnected port s) = outgoingQueue s
   \<and> reconnectionAttempts (snd (onJoinChannel p s)) =
       reconnectionAttempts s +
         (if ws s = None
             \<and> (case joinChannel s of
                   None \<Rightarrow> eagerlyConnect p
                 | Some c \<Rightarrow> endpoint c = endpoint p \<and> (eagerlyConnect c \<or> eagerlyConnect p))
          then 1 else 0)"
  by (simp add: onTabConnected_no_attempt onJoinChannel_attempts)

theorem attach_never_connects_witness:
  "ws (onTabConnected 2 detachedExample) = None
   \<and> reconnectionAttempts (onTabConnected 2 detachedExample) = 1
   \<and> timers (onTabConnected 2 detachedExample) = []
   \<and> outgoingQueue (onTabConnected 2 detachedExample) = [Shared 0]
   \<and> reconnectionAttempts (snd (onJoinChannel (joinOf ''wss://a/ws?c=x'' False)
        (onTabConnected 2 detachedExample))) = 1
   \<and> reconnectionAttempts (snd (onJoinChannel (joinOf ''wss://a/ws?c=x'' True)
        (onTabConnected 2 detachedExample))) = 2"
  using attach_never_connects_join_at_most_once
      [of 2 detachedExample "joinOf ''wss://a/ws?c=x'' False"]
    attach_never_connects_join_at_most_once
      [of 2 "onTabConnected 2 detachedExample" "joinOf ''wss://a/ws?c=x'' False"]
    attach_never_connects_join_at_most_once
      [of 2 "onTabConnected 2 detachedExample" "joinOf ''wss://a/ws?c=x'' True"]
  by (simp add: detachedExample_eq onTabConnected_def joinOf_def Let_def)

subsection \<open>The reconnection interval\<close>

lemma closedExample_eq:
  "closedExample =
     \<lparr>ws = Some \<lparr>url = ''wss://a/ws?c=x'', readyState = CLOSED,
                 frames = [JOIN (joinOf ''wss://a/ws?c=x'' True)], closeCalls = []\<rparr>,
      joinChannel = Some (joinOf ''wss://a/ws?c=x'' True),
      messageHistory = [], outgoingQueue = [],
      tabPorts = [1], posted = [(1, CONNECTED []), (1, ONLINE)], online = True,
      connectedTimestampMs = 1000, reconnectionAttempts = 1, timers = [], released = []\<rparr>"
  by (simp add: closedExample_def step_def initial_def onTabConnected_def onTabMessage_def
      onJoinChannel_def onWsOpen_def send_def wsSend_def flushQueue_def flushQueueWith_def
      triggerWsConnection_def setWs_def newWebSocket_def broadcast_def loopback_def
      joinOf_def Let_def)

text \<open>
  The delay that \<^verbatim>\<open>onWsClose\<close> chooses, while online with a tab attached: with
  \<open>d\<close> the time since \<^verbatim>\<open>connectedTimestampMs\<close> (0 when that is 0), a timer of
  \<open>MIN_RECONNECTION_INTERVAL_MS - d\<close> when that is positive, an immediate attempt
  otherwise. \<^verbatim>\<open>connectedTimestampMs\<close> is not touched.
\<close>

lemma onWsClose_schedule:
  assumes "online s" and "tabPorts s \<noteq> []"
  shows "snd (onWsClose now s) =
     (let d = (if connectedTimestampMs s \<noteq> 0 then now - connectedTimestampMs s else 0);
          s1 = broadcast (OFFLINE d) None s
      in if 0 < MIN_RECONNECTION_INTERVAL_MS - d
         then s1\<lparr>timers := timers s1 @ [max 0 (MIN_RECONNECTION_INTERVAL_MS - d)]\<rparr>
         else snd (triggerWsConnection s1))"
  using assms by (simp add: onWsClose_def broadcast_def Let_def)

lemma onWsClose_immediate_again:
  assumes "online s" and "tabPorts s \<noteq> []" and "joinChannel s \<noteq> None"
    and "connectedTimestampMs s \<noteq> 0"
    and "connectedTimestampMs s + MIN_RECONNECTION_INTERVAL_MS \<le> now"
  shows "reconnectionAttempts (snd (onWsClose now s)) = reconnectionAttempts s + 1
       \<and> timers (snd (onWsClose now s)) = timers s
       \<and> online (snd (onWsClose now s)) \<and> tabPorts (snd (onWsClose now s)) = tabPorts s
       \<and> joinChannel (snd (onWsClose now s)) = joinChannel s
       \<and> connectedTimestampMs (snd (onWsClose now s)) = connectedTimestampMs s"
  using assms
  by (auto simp: onWsClose_def triggerWsConnection_def setWs_def broadcast_def Let_def)

text \<open>
  C3. The code at the failing input: a session opens at time 1000 and its socket closes
  at 100000, more than the minimal interval later, so the handler reconnects at once.
  That attempt never opens and its close event comes 1 ms later: \<^verbatim>\<open>connectedTimestampMs\<close>
  is still 1000, the handler again sees a long session and reconnects at once, and so
  again 1 ms later. Three attempts within 2 ms, and no timer was ever set.
\<close>

theorem reconnects_without_interval_after_failed_attempt:
  "connectedTimestampMs closedExample = 1000
   \<and> reconnectionAttempts closedExample = 1
   \<and> reconnectionAttempts (run loopback [WsClose 100000] closedExample) = 2
   \<and> reconnectionAttempts
        (run loopback [WsClose 100000, WsState CLOSED, WsClose 100001] closedExample) = 3
   \<and> reconnectionAttempts
        (run loopback [WsClose 100000, WsState CLOSED, WsClose 100001,
                       WsState CLOSED, WsClose 100002] closedExample) = 4
   \<and> timers (run loopback [WsClose 100000, WsState CLOSED, WsClose 100001,
                       WsState CLOSED, WsClose 100002] closedExample) = []
   \<and> connectedTimestampMs
        (run loopback [WsClose 100000, WsState CLOSED, WsClose 100001,
                       WsState CLOSED, WsClose 100002] closedExample) = 1000"
  by (simp add: closedExample_eq step_def onWsClose_def triggerWsConnection_def setWs_def
      newWebSocket_def broadcast_def MIN_RECONNECTION_INTERVAL_MS_def joinOf_def Let_def)

subsection \<open>The shared elements of the queue\<close>

lemma flushQueue_result:
  "\<exists>k w. snd (flushQueue cdc s) = s\<lparr>ws := w, outgoingQueue := drop k (outgoingQueue s)\<rparr>"
proof -
  let ?q = "outgoingQueue s"
  let ?f = "\<lambda>payload. send cdc (case payload of None \<Rightarrow> None
                                   | Some x \<Rightarrow> queued (messageHistory s) x)"
  have fq: "flushQueue cdc s =
      (case flushQueueWith ?f ?q (ws s) of (e, q, w) \<Rightarrow> (e, s\<lparr>ws := w, outgoingQueue := q\<rparr>))"
    by (simp add: flushQueue_def)
  from sendAll_cases [of ?f ?q "ws s"] show ?thesis
  proof
    assume "\<exists>w'. sendAll ?f ?q (ws s) = Inr w'"
    then obtain w' where "sendAll ?f ?q (ws s) = Inr w'" ..
    from flushQueueWith_all [OF this] fq
    have "snd (flushQueue cdc s) = s\<lparr>ws := w', outgoingQueue := drop (length ?q) ?q\<rparr>"
      by simp
    then show ?thesis by blast
  next
    assume "\<exists>k w' e. k < length ?q \<and> sendAll ?f (take k ?q) (ws s) = Inr w'
              \<and> ?f (Some (?q ! k)) w' = Inl e"
    then obtain k w' e where "k < length ?q" "sendAll ?f (take k ?q) (ws s) = Inr w'"
      "?f (Some (?q ! k)) w' = Inl e"
      by blast
    from flushQueueWith_fail [OF this] fq
    have "snd (flushQueue cdc s) = s\<lparr>ws := w', outgoingQueue := drop k ?q\<rparr>"
      by simp
    then show ?thesis by blast
  qed
qed

lemma refsValid_keep:
  "refsValid s \<Longrightarrow> length (messageHistory s) \<le> length (messageHistory t)
     \<Longrightarrow> set (outgoingQueue t) \<subseteq> set (outgoingQueue s) \<Longrightarrow> refsValid t"
  by (fastforce simp: refsValid_def list_all_iff split: envelope.splits)

lemma flushQueue_refsValid:
  assumes v: "refsValid s"
  shows "refsValid (snd (flushQueue cdc s))"
proof -
  from flushQueue_result [of cdc s] obtain k w where
    "snd (flushQueue cdc s) = s\<lparr>ws := w, outgoingQueue := drop k (outgoingQueue s)\<rparr>"
    by blast
  then have len: "length (messageHistory s) \<le> length (messageHistory (snd (flushQueue cdc s)))"
    and sub: "set (outgoingQueue (snd (flushQueue cdc s))) \<subseteq> set (outgoingQueue s)"
    by (simp_all add: set_drop_subset)
  show "refsValid (snd (flushQueue cdc s))"
    by (rule refsValid_keep [OF v len sub])
qed

lemma triggerWsConnection_refsValid:
  assumes v: "refsValid s"
  shows "refsValid (snd (triggerWsConnection s))"
  by (rule refsValid_keep [OF v]) simp_all

lemma onJoinChannel_refsValid:
  assumes v: "refsValid s"
  shows "refsValid (snd (onJoinChannel p s))"
  by (rule refsValid_keep [OF v])
    (simp_all add: onJoinChannel_def triggerWsConnection_def setWs_def Let_def
      split: option.splits)

lemma onPlaintextMessage_refsValid:
  assumes "refsValid s"
  shows "refsValid (snd (onPlaintextMessage cdc m t s))"
proof -
  let ?s3 = "broadcast (CONTENT m) (Some t)
      (s\<lparr>messageHistory := messageHistory s @ [m],
         outgoingQueue := outgoingQueue s @ [Shared (length (messageHistory s))]\<rparr>)"
  from assms have v3: "refsValid ?s3"
    by (fastforce simp: refsValid_def list_all_iff broadcast_def split: envelope.splits)
  have "snd (onPlaintextMessage cdc m t s) =
      (case ws ?s3 of
         Some sock \<Rightarrow> if readyState sock = OPEN then snd (flushQueue cdc ?s3) else ?s3
       | None \<Rightarrow> if online ?s3 then snd (triggerWsConnection ?s3) else ?s3)"
    by (simp add: onPlaintextMessage_def Let_def split: option.splits)
  with v3 flushQueue_refsValid [OF v3, of cdc] triggerWsConnection_refsValid [OF v3]
  show ?thesis
    by (simp split: option.splits)
qed

lemma onFileMessage_refsValid:
  assumes "refsValid s"
  shows "refsValid (snd (onFileMessage cdc m t s))"
proof (cases "body m")
  case (Text x)
  have "refsValid (broadcast (CONTENT m) (Some t) (s\<lparr>messageHistory := messageHistory s @ [m]\<rparr>))"
    by (rule refsValid_keep [OF assms]) (simp_all add: broadcast_def)
  with Text show ?thesis
    by (simp add: onFileMessage_def Let_def)
next
  case (FileBody f)
  let ?u = "\<lparr>uploadMessageId = messageId m, fileName = fileName_of f,
             fileType = fileType_of f, fileSize = fileSize_of f\<rparr>"
  let ?s2 = "broadcast (CONTENT m) (Some t) (s\<lparr>messageHistory := messageHistory s @ [m]\<rparr>)"
  let ?s3 = "?s2\<lparr>outgoingQueue := outgoingQueue ?s2 @ [Own (UPLOAD ?u)]\<rparr>"
  from assms have v3: "refsValid ?s3"
    by (fastforce simp: refsValid_def list_all_iff broadcast_def split: envelope.splits)
  have "snd (onFileMessage cdc m t s) =
      (case ws ?s3 of
         Some sock \<Rightarrow> if readyState sock = OPEN then snd (flushQueue cdc ?s3) else ?s3
       | None \<Rightarrow> if online ?s3 then snd (triggerWsConnection ?s3) else ?s3)"
    using FileBody by (simp add: onFileMessage_def Let_def split: option.splits)
  with v3 flushQueue_refsValid [OF v3, of cdc] triggerWsConnection_refsValid [OF v3]
  show ?thesis
    by (simp split: option.splits)
qed

lemma onTabDisconnected_refsValid:
  assumes v: "refsValid s"
  shows "refsValid (snd (onTabDisconnected t s))"
  by (rule refsValid_keep [OF v])
    (simp_all add: onTabDisconnected_def Let_def split: option.splits sum.splits)

lemma onTabMessage_refsValid:
  assumes v: "refsValid s"
  shows "refsValid (snd (onTabMessage cdc t d s))"
  using v
  by (simp add: onTabMessage_def onJoinChannel_refsValid onPlaintextMessage_refsValid
      onFileMessage_refsValid onTabDisconnected_refsValid
      split: option.splits kiteMsg.splits body.splits)

lemma onOnline_refsValid:
  assumes v: "refsValid s"
  shows "refsValid (snd (onOnline s))"
  by (rule refsValid_keep [OF v]) (simp_all add: onOnline_def Let_def)

lemma onOffline_refsValid:
  assumes v: "refsValid s"
  shows "refsValid (snd (onOffline s))"
  by (rule refsValid_keep [OF v])
    (simp_all add: onOffline_def setWs_def Let_def split: option.splits sum.splits)

lemma onWsOpen_refsValid:
  assumes "refsValid s"
  shows "refsValid (snd (onWsOpen cdc now s))"
proof -
  have keep: "refsValid (s\<lparr>connectedTimestampMs := now\<rparr>)"
    by (rule refsValid_keep [OF assms]) simp_all
  have after: "refsValid (snd (case flushQueue cdc t of
                 (Some e, s2) \<Rightarrow> (Some e, s2)
               | (None, s2) \<Rightarrow> (None, broadcast ONLINE None s2)))" if "refsValid t" for t
  proof -
    obtain e s2 where fq: "flushQueue cdc t = (e, s2)"
      by (cases "flushQueue cdc t")
    with flushQueue_refsValid [OF that, of cdc] have v2: "refsValid s2"
      by simp
    have "refsValid (broadcast ONLINE None s2)"
      by (rule refsValid_keep [OF v2]) (simp_all add: broadcast_def)
    with fq v2 show ?thesis
      by (cases e) simp_all
  qed
  have "refsValid (s\<lparr>connectedTimestampMs := now, ws := w\<rparr>)" for w
    by (rule refsValid_keep [OF assms]) simp_all
  with keep after show ?thesis
    by (simp add: onWsOpen_def Let_def split: option.splits sum.splits)
qed

lemma onWsClose_refsValid:
  assumes v: "refsValid s"
  shows "refsValid (snd (onWsClose now s))"
  by (rule refsValid_keep [OF v]) (simp_all add: onWsClose_def setWs_def broadcast_def Let_def)

lemma onWsMessage_refsValid:
  assumes v: "refsValid s"
  shows "refsValid (snd (onWsMessage cdc f s))"
  by (rule refsValid_keep [OF v])
    (simp_all add: onWsMessage_def onWsPlaintextMessage_def onWsFileMessage_def downloadUrl_def
      onMessageAck_def onErrorResponse_def broadcast_def Let_def
      split: sum.splits kiteMsg.splits body.splits option.splits)

lemma step_refsValid:
  assumes v: "refsValid s"
  shows "refsValid (step cdc ev s)"
proof (cases ev)
  case (TabConnected port)
  have "refsValid (onTabConnected port s)"
    by (rule refsValid_keep [OF v]) (simp_all add: onTabConnected_def Let_def)
  with TabConnected show ?thesis by (simp add: step_def)
next
  case (WsState r)
  have "refsValid (s\<lparr>ws := map_option (\<lambda>sock. sock\<lparr>readyState := r\<rparr>) (ws s)\<rparr>)"
    by (rule refsValid_keep [OF v]) simp_all
  with WsState show ?thesis by (simp add: step_def)
qed (simp_all add: v step_def onTabMessage_refsValid onOnline_refsValid onOffline_refsValid
      onWsOpen_refsValid onWsClose_refsValid onWsMessage_refsValid onWsError_def
      triggerWsConnection_refsValid)

text \<open>
  From the start of the worker, after any events, every \<open>Shared\<close> element of the queue
  stands for an object of the history.
\<close>

lemma run_refsValid: "refsValid s \<Longrightarrow> refsValid (run cdc evs s)"
  by (induction evs arbitrary: s) (simp_all add: step_refsValid)

lemma initial_refsValid: "refsValid (initial onLine)"
  by (simp add: refsValid_def initial_def)

end
